theory Spec2Isabelle
  imports Complex_Main
begin

section \<open>The numbers of the script\<close>

text \<open>
  A JavaScript number is a binary64 floating-point number. The finite ones are modelled as
  the reals they denote; \<^verbatim>\<open>undefined\<close> and \<^verbatim>\<open>null\<close> are \<^term>\<open>None\<close>. Every arithmetic
  operation of the script rounds its exact result to the nearest double, ties to the even
  mantissa: \<open>round64\<close>. A double has a mantissa of 53 bits and an exponent of at least
  \<open>-1074\<close> (the subnormal numbers included). Infinities and NaN are not modelled: the
  model has no largest double, and agrees with the script as long as no result reaches
  \<open>2 ^ 1024\<close>.
\<close>

definition round_even :: "real \<Rightarrow> int" where
  \<comment> \<open>the nearest integer, the even one of two that are equally near\<close>
  "round_even y =
     (let f = \<lfloor>y\<rfloor>; r = y - of_int f
      in if r < 1 / 2 then f else if 1 / 2 < r then f + 1 else if even f then f else f + 1)"

definition gridexp :: "real \<Rightarrow> int" where
  \<comment> \<open>the exponent of the unit in the last place of the doubles around \<open>x\<close>\<close>
  "gridexp x = max \<lfloor>log 2 \<bar>x\<bar>\<rfloor> (- 1022) - 52"

definition round64 :: "real \<Rightarrow> real" where
  "round64 x =
     (if x = 0 then 0
      else of_int (round_even (x / 2 powi gridexp x)) * 2 powi gridexp x)"

definition is_double :: "real \<Rightarrow> bool" where
  "is_double x = (round64 x = x)"

definition minDouble :: real where
  \<comment> \<open>the smallest positive double\<close>
  "minDouble = 2 powi (- 1074)"

definition ulp :: "real \<Rightarrow> real" where
  \<comment> \<open>the unit in the last place of a double\<close>
  "ulp x = (if x = 0 then minDouble else 2 powi gridexp x)"

text \<open>A decimal literal of the script denotes the nearest double; the operators
  \<^verbatim>\<open>+\<close>, \<^verbatim>\<open>-\<close>, \<^verbatim>\<open>*\<close> and \<^verbatim>\<open>/\<close> round.\<close>

definition lit :: "real \<Rightarrow> real" where
  "lit x = round64 x"

definition jadd :: "real \<Rightarrow> real \<Rightarrow> real" where
  "jadd a b = round64 (a + b)"

definition jsub :: "real \<Rightarrow> real \<Rightarrow> real" where
  "jsub a b = round64 (a - b)"

definition jmul :: "real \<Rightarrow> real \<Rightarrow> real" where
  "jmul a b = round64 (a * b)"

definition jdiv :: "real \<Rightarrow> real \<Rightarrow> real" where
  \<comment> \<open>the division the model needs is \<^verbatim>\<open>Math.PI / 2\<close>\<close>
  "jdiv a b = round64 (a / b)"

section \<open>Vectors and quaternions\<close>

text \<open>
  \<^verbatim>\<open>THREE.Vector3\<close>, \<^verbatim>\<open>THREE.Quaternion\<close> and \<^verbatim>\<open>THREE.Euler\<close> belong to the rendering
  library; the few methods the script calls are written out below as the library defines
  them. The library's own arithmetic is taken exact: its square root, sine and cosine are
  the mathematical ones.
\<close>

record vector3 =
  vx :: real
  vy :: real
  vz :: real

record quat =
  qx :: real
  qy :: real
  qz :: real
  qw :: real

record euler =
  ex :: real
  ey :: real
  ez :: real

text \<open>\<^verbatim>\<open>new THREE.Vector3(...xs)\<close>: the constructor's parameters default to 0, further
  arguments are ignored.\<close>

fun Vector3 :: "real list \<Rightarrow> vector3" where
  "Vector3 [] = \<lparr>vx = 0, vy = 0, vz = 0\<rparr>"
| "Vector3 [a] = \<lparr>vx = a, vy = 0, vz = 0\<rparr>"
| "Vector3 [a, b] = \<lparr>vx = a, vy = b, vz = 0\<rparr>"
| "Vector3 (a # b # c # _) = \<lparr>vx = a, vy = b, vz = c\<rparr>"

definition setScalar :: "real \<Rightarrow> vector3" where
  "setScalar s = \<lparr>vx = s, vy = s, vz = s\<rparr>"

definition vlength :: "vector3 \<Rightarrow> real" where
  \<comment> \<open>\<^verbatim>\<open>length() { return Math.sqrt(x*x + y*y + z*z) }\<close>\<close>
  "vlength v = sqrt (vx v * vx v + vy v * vy v + vz v * vz v)"

definition multiplyScalar :: "vector3 \<Rightarrow> real \<Rightarrow> vector3" where
  "multiplyScalar v s = \<lparr>vx = vx v * s, vy = vy v * s, vz = vz v * s\<rparr>"

definition divideScalar :: "vector3 \<Rightarrow> real \<Rightarrow> vector3" where
  \<comment> \<open>\<^verbatim>\<open>divideScalar(s) { return this.multiplyScalar(1 / s) }\<close>; \<open>vnormalize\<close> below never
      passes 0\<close>
  "divideScalar v s = multiplyScalar v (1 / s)"

definition vnormalize :: "vector3 \<Rightarrow> vector3" where
  \<comment> \<open>\<^verbatim>\<open>normalize() { return this.divideScalar(this.length() || 1) }\<close>\<close>
  "vnormalize v = divideScalar v (if vlength v = 0 then 1 else vlength v)"

definition setFromAxisAngle :: "vector3 \<Rightarrow> real \<Rightarrow> quat" where
  "setFromAxisAngle a angle =
     (let halfAngle = angle / 2; s = sin halfAngle
      in \<lparr>qx = vx a * s, qy = vy a * s, qz = vz a * s, qw = cos halfAngle\<rparr>)"

definition multiplyQ :: "quat \<Rightarrow> quat \<Rightarrow> quat" where
  \<comment> \<open>\<^verbatim>\<open>Quaternion.multiply\<close>, the Hamilton product\<close>
  "multiplyQ a b =
     \<lparr>qx = qx a * qw b + qw a * qx b + qy a * qz b - qz a * qy b,
      qy = qy a * qw b + qw a * qy b + qz a * qx b - qx a * qz b,
      qz = qz a * qw b + qw a * qz b + qx a * qy b - qy a * qx b,
      qw = qw a * qw b - qx a * qx b - qy a * qy b - qz a * qz b\<rparr>"

section \<open>Interactive objects\<close>

text \<open>The scale descriptor \<^verbatim>\<open>{ base, hover, click }\<close>; \<^verbatim>\<open>click\<close> may be absent
  (the click callback falls back with \<^verbatim>\<open>??\<close>). The rotation descriptor
  \<^verbatim>\<open>{ axis: [..], speed }\<close>.\<close>

record scale_desc =
  base :: real
  hover :: real
  click :: "real option"

record rotation_desc =
  axis :: "real list"
  speed :: real

text \<open>
  The callbacks stored in \<^verbatim>\<open>userData\<close> are closures. Each constructor below is one of
  the arrow functions of the script together with the variables it captures; the
  captured \<^verbatim>\<open>obj\<close> is always the object the closure is stored on.
\<close>

datatype callback =
    HoverEnterCb scale_desc               \<comment> \<open>\<^verbatim>\<open>() => { obj.userData.targetScale = scale.hover }\<close>\<close>
  | HoverExitCb scale_desc                \<comment> \<open>\<^verbatim>\<open>() => { obj.userData.targetScale = scale.base }\<close>\<close>
  | ClickCb "string option" scale_desc    \<comment> \<open>the click closure of \<^verbatim>\<open>makeInteractable\<close>\<close>
  | SphereEnterCb                         \<comment> \<open>\<^verbatim>\<open>() => (sphere.userData.targetScale = 1.5)\<close>\<close>
  | SphereExitCb                          \<comment> \<open>\<^verbatim>\<open>() => (sphere.userData.targetScale = 1)\<close>\<close>
  | SphereClickCb                         \<comment> \<open>\<^verbatim>\<open>() => (window.location.href = "./darkroom.html")\<close>\<close>

datatype material = AssetMaterial | MirrorMaterialLight | MirrorMaterialDark

record userData =
  interactable :: "bool option"
  scaleDesc :: "scale_desc option"        \<comment> \<open>\<^verbatim>\<open>userData.scale\<close>\<close>
  targetScale :: "real option"
  rotationAxis :: "vector3 option"
  rotationSpeed :: "real option"
  onHoverEnter :: "callback option"
  onHoverExit :: "callback option"
  onClick :: "callback option"

record object3d =
  position :: vector3
  quaternion :: quat
  scale :: vector3
  isMesh :: bool
  material :: material
  castShadow :: bool
  receiveShadow :: bool
  userData :: userData

text \<open>A node of the scene graph: an object and its children.\<close>

datatype scene_node = SceneNode (obj: object3d) (children: "scene_node list")

text \<open>\<^verbatim>\<open>traverse(callback)\<close> calls the callback on the node and then on every descendant.
  Every callback of the script mutates the visited object only.\<close>

fun traverse :: "(object3d \<Rightarrow> object3d) \<Rightarrow> scene_node \<Rightarrow> scene_node" where
  "traverse f (SceneNode ob cs) = SceneNode (f ob) (map (traverse f) cs)"

text \<open>All objects of a graph, in the order \<^verbatim>\<open>traverse\<close> visits them.\<close>

fun objects :: "scene_node \<Rightarrow> object3d list" where
  "objects (SceneNode ob cs) = ob # concat (map objects cs)"

definition emptyUserData :: userData where
  "emptyUserData =
     \<lparr>interactable = None, scaleDesc = None, targetScale = None, rotationAxis = None,
      rotationSpeed = None, onHoverEnter = None, onHoverExit = None, onClick = None\<rparr>"

definition newObject3D :: object3d where
  \<comment> \<open>\<^verbatim>\<open>new THREE.Object3D()\<close>: at the origin, not rotated, scale 1, empty \<^verbatim>\<open>userData\<close>\<close>
  "newObject3D =
     \<lparr>position = \<lparr>vx = 0, vy = 0, vz = 0\<rparr>,
      quaternion = \<lparr>qx = 0, qy = 0, qz = 0, qw = 1\<rparr>,
      scale = \<lparr>vx = 1, vy = 1, vz = 1\<rparr>,
      isMesh = False, material = AssetMaterial, castShadow = False, receiveShadow = False,
      userData = emptyUserData\<rparr>"

definition rotateOnAxis :: "object3d \<Rightarrow> vector3 \<Rightarrow> real \<Rightarrow> object3d" where
  \<comment> \<open>\<^verbatim>\<open>_q1.setFromAxisAngle(axis, angle); this.quaternion.multiply(_q1)\<close>\<close>
  "rotateOnAxis ob a angle =
     ob\<lparr>quaternion := multiplyQ (quaternion ob) (setFromAxisAngle a angle)\<rparr>"

subsection \<open>Constants\<close>

definition BASE_SCALE :: real where "BASE_SCALE = lit 1.3"
definition HOVER_SCALE :: real where "HOVER_SCALE = lit 1.5"
definition CLICK_SCALE :: real where "CLICK_SCALE = lit 2.1"
definition NORMAL_SCALE :: real where "NORMAL_SCALE = 2"

subsection \<open>\<^verbatim>\<open>makeInteractable\<close>\<close>

text \<open>The third parameter \<^verbatim>\<open>{ scale = {...}, rotation = null } = {}\<close>: both entries are
  optional.\<close>

record options =
  opt_scale :: "scale_desc option"
  opt_rotation :: "rotation_desc option"

definition makeInteractable :: "object3d \<Rightarrow> string option \<Rightarrow> options \<Rightarrow> object3d" where
  "makeInteractable ob modalId opts =
     (let sc = (case opt_scale opts of
                  None \<Rightarrow> \<lparr>base = BASE_SCALE, hover = HOVER_SCALE, click = Some CLICK_SCALE\<rparr>
                | Some sc \<Rightarrow> sc);
          rotation = opt_rotation opts;
          ud = (userData ob)\<lparr>interactable := Some True\<rparr>;
          ud = ud\<lparr>scaleDesc := Some sc\<rparr>;
          ud = ud\<lparr>targetScale := Some (base sc)\<rparr>;
          ob = ob\<lparr>scale := setScalar (base sc)\<rparr>;
          ud = (case rotation of
                  None \<Rightarrow> ud
                | Some r \<Rightarrow> ud\<lparr>rotationAxis := Some (vnormalize (Vector3 (axis r))),
                               rotationSpeed := Some (speed r)\<rparr>);
          ud = ud\<lparr>onHoverEnter := Some (HoverEnterCb sc)\<rparr>;
          ud = ud\<lparr>onHoverExit := Some (HoverExitCb sc)\<rparr>;
          ud = ud\<lparr>onClick := Some (ClickCb modalId sc)\<rparr>
      in ob\<lparr>userData := ud\<rparr>)"

subsection \<open>The per-frame tick\<close>

definition ease :: "real \<Rightarrow> real \<Rightarrow> real" where
  \<comment> \<open>the argument of \<^verbatim>\<open>setScalar\<close> in the tick: \<^verbatim>\<open>s + (t - s) * 0.1\<close>, three roundings\<close>
  "ease s t = jadd s (jmul (jsub t s) (lit 0.1))"

text \<open>The callback that the tick passes to \<^verbatim>\<open>manager.scene.traverse\<close>.\<close>

definition tick_obj :: "real \<Rightarrow> object3d \<Rightarrow> object3d" where
  "tick_obj delta ob =
     (let ob = (case rotationAxis (userData ob) of
                  None \<Rightarrow> ob
                | Some a \<Rightarrow>
                   (case rotationSpeed (userData ob) of
                      None \<Rightarrow> ob
                    | Some sp \<Rightarrow> rotateOnAxis ob a (jmul sp delta)))
      in (case targetScale (userData ob) of
            None \<Rightarrow> ob
          | Some t \<Rightarrow> (let s = vx (scale ob) in ob\<lparr>scale := setScalar (ease s t)\<rparr>)))"

text \<open>
  The scene manager: its scene graph and its camera. \<^verbatim>\<open>SceneManager._tick\<close>, which the
  script keeps as \<^verbatim>\<open>originalTick\<close> and calls last, is defined in \<^verbatim>\<open>sceneManager.js\<close>; it
  is a parameter here.
\<close>

record manager =
  scene :: scene_node
  camera :: object3d

definition tick :: "(real \<Rightarrow> manager \<Rightarrow> manager) \<Rightarrow> real \<Rightarrow> manager \<Rightarrow> manager" where
  "tick originalTick delta m =
     originalTick delta (m\<lparr>scene := traverse (tick_obj delta) (scene m)\<rparr>)"

text \<open>Several frames in a row on one object, one \<^verbatim>\<open>delta\<close> per frame.\<close>

fun frames :: "real list \<Rightarrow> object3d \<Rightarrow> object3d" where
  "frames [] ob = ob"
| "frames (d # ds) ob = frames ds (tick_obj d ob)"

section \<open>Pointer events\<close>

text \<open>What the callbacks act on besides the object: the modal panels opened so far and the
  address of the page.\<close>

record page =
  opened :: "string list"
  href :: string

text \<open>Modelled from the spec: \<^verbatim>\<open>openModal\<close> of \<^verbatim>\<open>modal.js\<close>, which is not among the sources.
  The spec says of it that a modal is an on-screen informational panel opened in response
  to a click on a 3D object; the model records the id of the panel that is opened.\<close>

definition openModal :: "object3d \<Rightarrow> string \<Rightarrow> page \<Rightarrow> page" where
  "openModal ob modalId pg = pg\<lparr>opened := opened pg @ [modalId]\<rparr>"

definition truthy :: "string option \<Rightarrow> bool" where
  \<comment> \<open>\<^verbatim>\<open>if (modalId)\<close>: \<^verbatim>\<open>undefined\<close>, \<^verbatim>\<open>null\<close> and the empty string are falsy\<close>
  "truthy m = (case m of None \<Rightarrow> False | Some str \<Rightarrow> str \<noteq> [])"

definition setTargetScale :: "object3d \<Rightarrow> real \<Rightarrow> object3d" where
  \<comment> \<open>\<^verbatim>\<open>obj.userData.targetScale = v\<close>\<close>
  "setTargetScale ob v = ob\<lparr>userData := (userData ob)\<lparr>targetScale := Some v\<rparr>\<rparr>"

text \<open>Calling a closure stored on \<open>ob\<close>.\<close>

fun invoke :: "callback \<Rightarrow> object3d \<Rightarrow> page \<Rightarrow> object3d \<times> page" where
  "invoke (HoverEnterCb sc) ob pg = (setTargetScale ob (hover sc), pg)"
| "invoke (HoverExitCb sc) ob pg = (setTargetScale ob (base sc), pg)"
| "invoke (ClickCb modalId sc) ob pg =
     (let pg = (if truthy modalId then openModal ob (the modalId) pg else pg)
      in (setTargetScale ob (case click sc of None \<Rightarrow> hover sc | Some c \<Rightarrow> c), pg))"
| "invoke SphereEnterCb ob pg = (setTargetScale ob (lit 1.5), pg)"
| "invoke SphereExitCb ob pg = (setTargetScale ob 1, pg)"
| "invoke SphereClickCb ob pg = (ob, pg\<lparr>href := ''./darkroom.html''\<rparr>)"

text \<open>The handlers the script gives to \<^verbatim>\<open>createPointer\<close>:
  \<^verbatim>\<open>obj => obj.userData?.onClick?.()\<close> and its two siblings.\<close>

definition pointer_onClick :: "object3d \<Rightarrow> page \<Rightarrow> object3d \<times> page" where
  "pointer_onClick ob pg =
     (case onClick (userData ob) of None \<Rightarrow> (ob, pg) | Some cb \<Rightarrow> invoke cb ob pg)"

definition pointer_onHoverEnter :: "object3d \<Rightarrow> page \<Rightarrow> object3d \<times> page" where
  "pointer_onHoverEnter ob pg =
     (case onHoverEnter (userData ob) of None \<Rightarrow> (ob, pg) | Some cb \<Rightarrow> invoke cb ob pg)"

definition pointer_onHoverExit :: "object3d \<Rightarrow> page \<Rightarrow> object3d \<times> page" where
  "pointer_onHoverExit ob pg =
     (case onHoverExit (userData ob) of None \<Rightarrow> (ob, pg) | Some cb \<Rightarrow> invoke cb ob pg)"

text \<open>The life of one object: frames and pointer events, in any order.\<close>

datatype event = Frame real | PointerEnter | PointerExit | PointerClick

fun step :: "event \<Rightarrow> object3d \<times> page \<Rightarrow> object3d \<times> page" where
  "step (Frame delta) (ob, pg) = (tick_obj delta ob, pg)"
| "step PointerEnter (ob, pg) = pointer_onHoverEnter ob pg"
| "step PointerExit (ob, pg) = pointer_onHoverExit ob pg"
| "step PointerClick (ob, pg) = pointer_onClick ob pg"

fun run :: "event list \<Rightarrow> object3d \<times> page \<Rightarrow> object3d \<times> page" where
  "run [] st = st"
| "run (e # es) st = run es (step e st)"

text \<open>The darkroom sphere, which the script sets up by hand.\<close>

definition sphere :: object3d where
  "sphere =
     newObject3D
       \<lparr>position := \<lparr>vx = - 80, vy = 20, vz = - 700\<rparr>,
        isMesh := True,
        material := MirrorMaterialDark,
        userData := emptyUserData
          \<lparr>interactable := Some True, targetScale := Some 1,
           onHoverEnter := Some SphereEnterCb, onHoverExit := Some SphereExitCb,
           onClick := Some SphereClickCb\<rparr>\<rparr>"

section \<open>Camera controls\<close>

definition edgeMargin :: real where "edgeMargin = lit 0.05"
definition panSpeed :: real where "panSpeed = lit 0.02"

text \<open>
  The overridden \<^verbatim>\<open>controls.update\<close>. \<^verbatim>\<open>originalUpdate\<close> is the update of the library's
  \<^verbatim>\<open>FlyControls\<close>; \<^verbatim>\<open>setFromQuaternion\<close> (with the order \<^verbatim>\<open>"YXZ"\<close>) and \<^verbatim>\<open>setFromEuler\<close> are
  the library's conversions between a quaternion and Euler angles. The three are
  parameters. \<open>mouseX\<close> is the variable the mouse-move listener writes, the position of the
  mouse across the canvas.
\<close>

definition controls_update ::
  "(real \<Rightarrow> object3d \<Rightarrow> object3d) \<Rightarrow> (quat \<Rightarrow> euler) \<Rightarrow> (euler \<Rightarrow> quat) \<Rightarrow>
     real \<Rightarrow> real \<Rightarrow> object3d \<Rightarrow> object3d" where
  "controls_update originalUpdate setFromQuaternion setFromEuler mouseX delta cam =
     (let cam = originalUpdate delta cam;
          euler = setFromQuaternion (quaternion cam);
          euler = (if mouseX < edgeMargin
                   then euler\<lparr>ey := jadd (ey euler) panSpeed\<rparr> else euler);
          euler = (if mouseX > jsub 1 edgeMargin
                   then euler\<lparr>ey := jsub (ey euler) panSpeed\<rparr> else euler)
      in cam\<lparr>quaternion := setFromEuler euler\<rparr>)"

section \<open>Loading the models\<close>

text \<open>
  A promise is modelled by the way it settles. The error a loader reports is a value of
  type \<open>error\<close>. The library's \<^verbatim>\<open>GLTFLoader.load\<close> is the parameter \<open>load\<close>: for a path it
  either hands \<^verbatim>\<open>gltf.scene\<close> to the success callback (\<^term>\<open>Inr\<close>) or an error to the error
  callback (\<^term>\<open>Inl\<close>).
\<close>

datatype error = LoadError string

datatype 'a promise = Fulfilled 'a | Rejected error

definition Math_PI :: real where
  "Math_PI = lit pi"

definition loadModelSafe :: "(string \<Rightarrow> error + scene_node) \<Rightarrow> string \<Rightarrow> scene_node promise" where
  "loadModelSafe load path =
     (case load path of Inr gltf_scene \<Rightarrow> Fulfilled gltf_scene | Inl err \<Rightarrow> Rejected err)"

definition applyInteractionRecursively ::
  "scene_node \<Rightarrow> string option \<Rightarrow> options \<Rightarrow> scene_node" where
  "applyInteractionRecursively n modalId opts =
     (let n = SceneNode (makeInteractable (obj n) modalId opts) (children n)
      in traverse (\<lambda>child. if isMesh child then makeInteractable child modalId opts else child) n)"

definition scene_add :: "scene_node \<Rightarrow> scene_node \<Rightarrow> scene_node" where
  \<comment> \<open>\<^verbatim>\<open>scene.add(clone)\<close>\<close>
  "scene_add sc n = SceneNode (obj sc) (children sc @ [n])"

text \<open>The argument of \<^verbatim>\<open>loadInteractiveModel\<close>; the last four entries have defaults.\<close>

record model_args =
  path :: string
  arg_position :: vector3
  arg_modalId :: "string option"
  arg_scale :: "scale_desc option"
  arg_rotation :: "rotation_desc option"
  arg_material :: "material option"
  arg_yRotation :: "real option"

text \<open>
  \<^verbatim>\<open>async function loadInteractiveModel\<close>: the result is the way the returned promise
  settles, with the manager as the function leaves it. A rejected \<^verbatim>\<open>await\<close> rejects the
  returned promise and nothing after it runs. \<open>setRotationY\<close> stands for the assignment
  \<^verbatim>\<open>clone.rotation.y = v\<close>, which the library turns into a new quaternion; \<^verbatim>\<open>clone(true)\<close>
  copies the loaded graph.
\<close>

definition loadInteractiveModel ::
  "(string \<Rightarrow> error + scene_node) \<Rightarrow> (real \<Rightarrow> quat \<Rightarrow> quat) \<Rightarrow> model_args \<Rightarrow> manager \<Rightarrow>
     unit promise \<times> manager" where
  "loadInteractiveModel load setRotationY args m =
     (let sc = (case arg_scale args of
                  None \<Rightarrow> \<lparr>base = NORMAL_SCALE, hover = jmul NORMAL_SCALE (lit 1.1),
                            click = Some (jmul NORMAL_SCALE (lit 1.2))\<rparr>
                | Some sc \<Rightarrow> sc);
          yRotation = (case arg_yRotation args of None \<Rightarrow> 0 | Some y \<Rightarrow> y)
      in case loadModelSafe load (path args) of
           Rejected err \<Rightarrow> (Rejected err, m)
         | Fulfilled model \<Rightarrow>
            (let clone = model;
                 root = (obj clone)
                   \<lparr>position := arg_position args,
                    quaternion := setRotationY yRotation (quaternion (obj clone)),
                    scale := setScalar (base sc)\<rparr>;
                 clone = SceneNode root (children clone);
                 clone = traverse
                   (\<lambda>c. if isMesh c
                        then (case arg_material args of
                                None \<Rightarrow> c
                              | Some mat \<Rightarrow> c\<lparr>material := mat\<rparr>)
                               \<lparr>castShadow := True, receiveShadow := True\<rparr>
                        else c) clone;
                 clone = applyInteractionRecursively clone (arg_modalId args)
                           \<lparr>opt_scale = Some sc, opt_rotation = arg_rotation args\<rparr>
             in (Fulfilled (), m\<lparr>scene := scene_add (scene m) clone\<rparr>)))"

text \<open>
  What the script as a whole has done: the manager, the errors written with
  \<^verbatim>\<open>console.error\<close>, and the rejections of promises that no handler took (the browser
  reports them as uncaught).
\<close>

record program =
  mgr :: manager
  console :: "error list"
  unhandledRejections :: "error list"

text \<open>A statement \<^verbatim>\<open>loadInteractiveModel({...});\<close> of the script: the promise is dropped.\<close>

definition callLoadInteractiveModel ::
  "(string \<Rightarrow> error + scene_node) \<Rightarrow> (real \<Rightarrow> quat \<Rightarrow> quat) \<Rightarrow> model_args \<Rightarrow> program \<Rightarrow> program" where
  "callLoadInteractiveModel load setRotationY args st =
     (case loadInteractiveModel load setRotationY args (mgr st) of
        (Fulfilled _, m) \<Rightarrow> st\<lparr>mgr := m\<rparr>
      | (Rejected err, m) \<Rightarrow>
          st\<lparr>mgr := m, unhandledRejections := unhandledRejections st @ [err]\<rparr>)"

text \<open>The statement
  \<^verbatim>\<open>loadModelSafe("./assets/warehouse/warehouse_remeshed.gltf").then(...).catch(console.error)\<close>.\<close>

definition loadWarehouse ::
  "(string \<Rightarrow> error + scene_node) \<Rightarrow> (real \<Rightarrow> quat \<Rightarrow> quat) \<Rightarrow> program \<Rightarrow> program" where
  "loadWarehouse load setRotationY st =
     (case loadModelSafe load ''./assets/warehouse/warehouse_remeshed.gltf'' of
        Rejected err \<Rightarrow> st\<lparr>console := console st @ [err]\<rparr>
      | Fulfilled model \<Rightarrow>
         (let model = SceneNode ((obj model)\<lparr>scale := setScalar 20\<rparr>) (children model);
              clone = model;
              root = (obj clone)
                \<lparr>position := \<lparr>vx = 100, vy = - 50, vz = - 300\<rparr>,
                 quaternion := setRotationY (jdiv Math_PI 2) (quaternion (obj clone))\<rparr>;
              clone = SceneNode root (children clone);
              clone = traverse
                (\<lambda>c. if isMesh c then c\<lparr>castShadow := True, receiveShadow := True\<rparr> else c) clone
          in st\<lparr>mgr := (mgr st)\<lparr>scene := scene_add (scene (mgr st)) clone\<rparr>\<rparr>))"

text \<open>The five interactive models of the script.\<close>

definition pressure :: model_args where
  "pressure =
     \<lparr>path = ''./assets/pressure/pressure.gltf'',
      arg_position = \<lparr>vx = 10, vy = 20, vz = - 70\<rparr>,
      arg_modalId = Some ''text-1'',
      arg_scale = Some \<lparr>base = lit 1.2, hover = lit 1.8, click = Some 2\<rparr>,
      arg_rotation = Some \<lparr>axis = [0, 1, 0], speed = lit 0.01\<rparr>,
      arg_material = Some MirrorMaterialDark,
      arg_yRotation = None\<rparr>"

definition hands :: model_args where
  "hands =
     \<lparr>path = ''./assets/hands/hands.gltf'',
      arg_position = \<lparr>vx = - 60, vy = 20, vz = - 150\<rparr>,
      arg_modalId = Some ''text-2'',
      arg_scale = Some \<lparr>base = lit 1.5, hover = lit 1.8, click = Some 2\<rparr>,
      arg_rotation = Some \<lparr>axis = [0, 1, 0], speed = lit 0.005\<rparr>,
      arg_material = Some MirrorMaterialLight,
      arg_yRotation = None\<rparr>"

definition weird_shape :: model_args where
  "weird_shape =
     \<lparr>path = ''./assets/weird_shape/weird_shape2.gltf'',
      arg_position = \<lparr>vx = - 20, vy = 15, vz = - 250\<rparr>,
      arg_modalId = Some ''text-3'',
      arg_scale = Some \<lparr>base = lit 0.3, hover = lit 0.33, click = Some (lit 0.36)\<rparr>,
      arg_rotation = Some \<lparr>axis = [1, 0, 0], speed = lit 0.01\<rparr>,
      arg_material = Some MirrorMaterialLight,
      arg_yRotation = None\<rparr>"

definition air :: model_args where
  "air =
     \<lparr>path = ''./assets/air/air.gltf'',
      arg_position = \<lparr>vx = 40, vy = 30, vz = - 360\<rparr>,
      arg_modalId = Some ''text-4'',
      arg_scale = Some \<lparr>base = lit 2.3, hover = lit 2.5, click = Some (lit 2.8)\<rparr>,
      arg_rotation = Some \<lparr>axis = [0, 1, 0], speed = lit 0.08\<rparr>,
      arg_material = Some MirrorMaterialLight,
      arg_yRotation = None\<rparr>"

definition melting_man :: model_args where
  "melting_man =
     \<lparr>path = ''./assets/melting/melting_man2.gltf'',
      arg_position = \<lparr>vx = - 20, vy = 25, vz = - 550\<rparr>,
      arg_modalId = Some ''text-5'',
      arg_scale = Some \<lparr>base = lit 2.8, hover = 3, click = Some (lit 3.5)\<rparr>,
      arg_rotation = Some \<lparr>axis = [0, 0, 1], speed = lit 0.01\<rparr>,
      arg_material = Some MirrorMaterialLight,
      arg_yRotation = None\<rparr>"

text \<open>The model loads of the script, in its order. No load depends on another.\<close>

definition loadModels ::
  "(string \<Rightarrow> error + scene_node) \<Rightarrow> (real \<Rightarrow> quat \<Rightarrow> quat) \<Rightarrow> program \<Rightarrow> program" where
  "loadModels load setRotationY st =
     loadWarehouse load setRotationY
       (foldl (\<lambda>st args. callLoadInteractiveModel load setRotationY args st) st
          [pressure, hands, weird_shape, air, melting_man])"

definition initialManager :: manager where
  \<comment> \<open>before any load has settled: the \<^verbatim>\<open>THREE.Scene\<close> holds the sphere only\<close>
  "initialManager = \<lparr>scene = SceneNode newObject3D [SceneNode sphere []], camera = newObject3D\<rparr>"

definition initialProgram :: program where
  "initialProgram = \<lparr>mgr = initialManager, console = [], unhandledRejections = []\<rparr>"

section \<open>Background audio\<close>

text \<open>
  The window's click listeners, each with its \<^verbatim>\<open>once\<close> flag, and the number of calls of
  \<^verbatim>\<open>bgAudio.play()\<close> so far. The only listener the script registers on the window is
  \<^verbatim>\<open>() => bgAudio.play()\<close>. Whether the browser lets the first \<^verbatim>\<open>play()\<close> through is the
  parameter \<open>allowed\<close>.
\<close>

datatype listener = PlayListener

record window =
  clickListeners :: "(listener \<times> bool) list"
  playCalls :: nat

definition play :: "window \<Rightarrow> window" where
  "play w = w\<lparr>playCalls := playCalls w + 1\<rparr>"

definition startAudio :: "bool \<Rightarrow> window \<Rightarrow> window" where
  \<comment> \<open>\<^verbatim>\<open>bgAudio.play().catch(() => window.addEventListener("click", ..., { once: true }))\<close>\<close>
  "startAudio allowed w =
     (let w = play w
      in if allowed then w else w\<lparr>clickListeners := clickListeners w @ [(PlayListener, True)]\<rparr>)"

fun runListener :: "listener \<Rightarrow> window \<Rightarrow> window" where
  "runListener PlayListener w = play w"

definition click_window :: "window \<Rightarrow> window" where
  \<comment> \<open>a click: every registered listener runs; a \<^verbatim>\<open>once\<close> listener is removed as it runs\<close>
  "click_window w =
     (let ls = clickListeners w;
          w = w\<lparr>clickListeners := filter (\<lambda>(l, once). \<not> once) ls\<rparr>
      in foldl (\<lambda>w (l, once). runListener l w) w ls)"

fun clicks :: "nat \<Rightarrow> window \<Rightarrow> window" where
  "clicks 0 w = w"
| "clicks (Suc n) w = clicks n (click_window w)"

definition newWindow :: window where
  "newWindow = \<lparr>clickListeners = [], playCalls = 0\<rparr>"

section \<open>Predicates and objects of the properties\<close>

definition uniform :: "vector3 \<Rightarrow> bool" where
  "uniform v = (vx v = vy v \<and> vy v = vz v)"

text \<open>The sphere under the pointer (target 1.5), at a scale four units in the last place
  below the target.\<close>

definition stalledSphere :: object3d where
  "stalledSphere =
     setTargetScale (sphere\<lparr>scale := setScalar (6755399441055740 / 2 ^ 52)\<rparr>) (lit 1.5)"

section \<open>Rounding to the nearest double\<close>

text \<open>The rounding of an integer-valued grid: no integer is nearer than the one chosen.\<close>

lemma round_even_nearest: "\<bar>of_int (round_even y) - y\<bar> \<le> \<bar>of_int j - y\<bar>"
proof -
  define f where "f = \<lfloor>y\<rfloor>"
  define r where "r = y - of_int f"
  have r: "0 \<le> r" "r < 1" unfolding r_def f_def by linarith+
  have y: "y = of_int f + r" by (simp add: r_def)
  have far: "min r (1 - r) \<le> \<bar>of_int j - y\<bar>"
  proof (cases "j \<le> f")
    case True
    then have "(of_int j :: real) \<le> of_int f" by simp
    then show ?thesis using r y by linarith
  next
    case False
    then have "f + 1 \<le> j" by simp
    then have "(of_int f :: real) + 1 \<le> of_int j" by (metis of_int_1 of_int_add of_int_le_iff)
    then show ?thesis using r y by linarith
  qed
  have re: "round_even y =
      (if r < 1 / 2 then f else if 1 / 2 < r then f + 1 else if even f then f else f + 1)"
    by (simp add: round_even_def Let_def f_def r_def)
  have a: "of_int f - y = - r" and b: "of_int f + 1 - y = 1 - r"
    by (simp_all add: r_def)
  have "\<bar>of_int (round_even y) - y\<bar> = min r (1 - r)"
  proof -
    consider "r < 1 / 2" | "1 / 2 < r" | "r = 1 / 2" by linarith
    then show ?thesis
    proof cases
      case 1
      then have "round_even y = f" by (simp add: re)
      then show ?thesis using 1 r by (simp add: a)
    next
      case 2
      then have "round_even y = f + 1" by (simp add: re)
      then show ?thesis using 2 r by (simp add: b)
    next
      case 3
      then have "round_even y = f \<or> round_even y = f + 1" by (simp add: re)
      then consider "round_even y = f" | "round_even y = f + 1" by blast
      then show ?thesis
      proof cases
        case 1
        then show ?thesis using 3 by (simp add: a)
      next
        case 2
        then show ?thesis using 3 by (simp add: b)
      qed
    qed
  qed
  then show ?thesis using far by simp
qed

lemma round_even_of_int [simp]: "round_even (of_int k) = k"
  by (simp add: round_even_def)

lemma round_even_half: "\<bar>of_int (round_even y) - y\<bar> \<le> 1 / 2"
proof -
  have "\<bar>of_int (round_even y) - y\<bar> \<le> \<bar>of_int \<lfloor>y\<rfloor> - y\<bar>"
    and "\<bar>of_int (round_even y) - y\<bar> \<le> \<bar>of_int (\<lfloor>y\<rfloor> + 1) - y\<bar>"
    by (rule round_even_nearest)+
  then show ?thesis by (simp; linarith)
qed

text \<open>The binade of a number.\<close>

lemma powr2_int: "(2::real) powr (of_int k) = 2 powi k"
  by (simp add: powr_real_of_int')

lemma floor_log2_bounds:
  assumes "x \<noteq> 0"
  shows "2 powi \<lfloor>log 2 \<bar>x\<bar>\<rfloor> \<le> \<bar>x\<bar>" and "\<bar>x\<bar> < 2 powi (\<lfloor>log 2 \<bar>x\<bar>\<rfloor> + 1)"
proof -
  define k where "k = \<lfloor>log 2 \<bar>x\<bar>\<rfloor>"
  have "0 < \<bar>x\<bar>" using assms by simp
  then have "2 powr (of_int k) \<le> \<bar>x\<bar> \<and> \<bar>x\<bar> < 2 powr (of_int k + 1)"
    using floor_log_eq_powr_iff [of "\<bar>x\<bar>" 2 k] by (simp add: k_def)
  moreover have "(2::real) powr (of_int k + 1) = 2 powi (k + 1)"
    using powr2_int [of "k + 1"] by simp
  ultimately show "2 powi \<lfloor>log 2 \<bar>x\<bar>\<rfloor> \<le> \<bar>x\<bar>" and "\<bar>x\<bar> < 2 powi (\<lfloor>log 2 \<bar>x\<bar>\<rfloor> + 1)"
    by (simp_all add: powr2_int k_def)
qed

lemma floor_log2_eqI:
  assumes "2 powi k \<le> \<bar>x\<bar>" and "\<bar>x\<bar> < 2 powi (k + 1)"
  shows "\<lfloor>log 2 \<bar>x\<bar>\<rfloor> = k"
proof -
  have "0 < (2::real) powi k" by simp
  with assms(1) have pos: "0 < \<bar>x\<bar>" by linarith
  have "(2::real) powr (of_int k + 1) = 2 powi (k + 1)"
    using powr2_int [of "k + 1"] by simp
  then have "2 powr (of_int k) \<le> \<bar>x\<bar> \<and> \<bar>x\<bar> < 2 powr (of_int k + 1)"
    using assms by (simp add: powr2_int)
  then show ?thesis
    using floor_log_eq_powr_iff [of "\<bar>x\<bar>" 2 k] pos by simp
qed


lemma powi2_less_D: "(2::real) powi m < 2 powi n \<Longrightarrow> m < n"
proof (rule ccontr)
  assume a: "(2::real) powi m < 2 powi n" and "\<not> m < n"
  then have "n \<le> m" by simp
  then have "(2::real) powi n \<le> 2 powi m" by (intro power_int_increasing) simp_all
  with a show False by simp
qed

lemma gridexp_ge: "- 1074 \<le> gridexp x"
  by (simp add: gridexp_def)

lemma gridexp_upper:
  assumes "x \<noteq> 0"
  shows "\<bar>x\<bar> < 2 powi (gridexp x + 53)"
proof -
  have "\<bar>x\<bar> < 2 powi (\<lfloor>log 2 \<bar>x\<bar>\<rfloor> + 1)"
    by (rule floor_log2_bounds [OF assms])
  also have "\<dots> \<le> 2 powi (gridexp x + 53)"
    by (intro power_int_increasing) (simp_all add: gridexp_def)
  finally show ?thesis .
qed

lemma gridexp_lower:
  assumes "x \<noteq> 0" and "- 1074 < gridexp x"
  shows "2 powi (gridexp x + 52) \<le> \<bar>x\<bar>"
proof -
  from assms(2) have "gridexp x + 52 = \<lfloor>log 2 \<bar>x\<bar>\<rfloor>"
    by (simp add: gridexp_def max_def split: if_splits)
  then show ?thesis using floor_log2_bounds(1) [OF assms(1)] by simp
qed

text \<open>A number at or above the binade of another has a grid that is not finer.\<close>

lemma gridexp_mono:
  assumes "x \<noteq> 0" and "\<bar>x\<bar> \<le> \<bar>y\<bar>"
  shows "gridexp x \<le> gridexp y"
proof -
  have y: "y \<noteq> 0" using assms by auto
  have "log 2 \<bar>x\<bar> \<le> log 2 \<bar>y\<bar>" using assms by simp
  then have "\<lfloor>log 2 \<bar>x\<bar>\<rfloor> \<le> \<lfloor>log 2 \<bar>y\<bar>\<rfloor>" by (rule floor_mono)
  then show ?thesis by (simp add: gridexp_def)
qed

lemma round64_grid:
  assumes "x / 2 powi gridexp x = of_int j"
  shows "round64 x = x"
proof (cases "x = 0")
  case True
  then show ?thesis by (simp add: round64_def)
next
  case False
  have "round64 x = of_int j * 2 powi gridexp x"
    using False by (simp add: round64_def assms)
  also have "\<dots> = x" using assms by (simp add: field_simps)
  finally show ?thesis .
qed

lemma is_double_multiple_lt:
  assumes "\<bar>k\<bar> < 2 ^ 53" and "- 1074 \<le> e"
  shows "is_double (of_int k * 2 powi e)"
proof (cases "k = 0")
  case True
  then show ?thesis by (simp add: is_double_def round64_def)
next
  case False
  define r :: real where "r = of_int k * 2 powi e"
  have r0: "r \<noteq> 0" using False by (simp add: r_def)
  have "\<bar>r\<bar> = of_int \<bar>k\<bar> * 2 powi e" by (simp add: r_def abs_mult)
  also have "\<dots> < 2 ^ 53 * 2 powi e"
  proof -
    have "(of_int \<bar>k\<bar> :: real) < of_int (2 ^ 53)" using assms(1) by (simp only: of_int_less_iff)
    then show ?thesis by simp
  qed
  also have "\<dots> = 2 powi (e + 53)" by (simp add: power_int_add)
  finally have up: "\<bar>r\<bar> < 2 powi (e + 53)" .
  have "2 powi \<lfloor>log 2 \<bar>r\<bar>\<rfloor> \<le> \<bar>r\<bar>" by (rule floor_log2_bounds [OF r0])
  with up have "(2::real) powi \<lfloor>log 2 \<bar>r\<bar>\<rfloor> < 2 powi (e + 53)" by linarith
  then have "\<lfloor>log 2 \<bar>r\<bar>\<rfloor> < e + 53"
    by (rule powi2_less_D)
  then have le: "gridexp r \<le> e" using assms(2) by (simp add: gridexp_def)
  have "r / 2 powi gridexp r = of_int k * 2 powi (e - gridexp r)"
    by (simp add: r_def power_int_diff)
  also have "\<dots> = of_int k * 2 ^ nat (e - gridexp r)"
    using le by (simp add: power_int_def)
  also have "\<dots> = of_int (k * 2 ^ nat (e - gridexp r))" by simp
  finally have "round64 r = r" by (rule round64_grid)
  then show ?thesis by (simp add: is_double_def r_def)
qed

lemma is_double_multiple:
  assumes "\<bar>k\<bar> \<le> 2 ^ 53" and "- 1074 \<le> e"
  shows "is_double (of_int k * 2 powi e)"
proof (cases "\<bar>k\<bar> < 2 ^ 53")
  case True
  then show ?thesis using assms(2) by (rule is_double_multiple_lt)
next
  case False
  with assms(1) have "\<bar>k\<bar> = 2 ^ 53" by simp
  then have "k = 2 ^ 53 \<or> k = - (2 ^ 53)" by linarith
  then have k2: "k = 2 * (k div 2)" and "\<bar>k div 2\<bar> < 2 ^ 53" by auto
  have "of_int k * 2 powi e = of_int (2 * (k div 2)) * (2::real) powi e"
    using k2 by simp
  also have "\<dots> = of_int (k div 2) * (2 * (2::real) powi e)"
    by simp
  also have "\<dots> = of_int (k div 2) * (2::real) powi (e + 1)"
    by (simp add: power_int_add)
  finally have "of_int k * 2 powi e = of_int (k div 2) * (2::real) powi (e + 1)" .
  moreover have "is_double (of_int (k div 2) * 2 powi (e + 1))"
    using \<open>\<bar>k div 2\<bar> < 2 ^ 53\<close> assms(2) by (intro is_double_multiple_lt) simp_all
  ultimately show ?thesis by simp
qed

lemma is_double_round64: "is_double (round64 x)"
proof (cases "x = 0")
  case True
  then show ?thesis by (simp add: is_double_def round64_def)
next
  case False
  define g :: real where "g = 2 powi gridexp x"
  define k where "k = round_even (x / g)"
  have g: "0 < g" by (simp add: g_def)
  have "\<bar>x / g\<bar> < 2 ^ 53"
  proof -
    have "\<bar>x\<bar> < 2 powi (gridexp x + 53)" by (rule gridexp_upper [OF False])
    also have "\<dots> = 2 ^ 53 * g" by (simp add: g_def power_int_add)
    finally show ?thesis using g by (simp add: abs_divide pos_divide_less_eq)
  qed
  moreover have "\<bar>of_int k - x / g\<bar> \<le> 1 / 2" unfolding k_def by (rule round_even_half)
  ultimately have "\<bar>(of_int k :: real)\<bar> < 2 ^ 53 + 1" by linarith
  then have "(of_int \<bar>k\<bar> :: real) < of_int (2 ^ 53 + 1)" by simp
  then have "\<bar>k\<bar> < 2 ^ 53 + 1" by (simp only: of_int_less_iff)
  then have "\<bar>k\<bar> \<le> 2 ^ 53" by simp
  then have "is_double (of_int k * 2 powi gridexp x)"
    using gridexp_ge by (rule is_double_multiple)
  then show ?thesis using False by (simp add: round64_def k_def g_def)
qed


lemma round64_nearest_multiple:
  assumes "x \<noteq> 0"
  shows "\<bar>round64 x - x\<bar> \<le> \<bar>of_int j * 2 powi gridexp x - x\<bar>"
proof -
  define g :: real where "g = 2 powi gridexp x"
  have g: "0 < g" by (simp add: g_def)
  have "\<bar>round64 x - x\<bar> = \<bar>of_int (round_even (x / g)) - x / g\<bar> * g"
  proof -
    have "round64 x - x = (of_int (round_even (x / g)) - x / g) * g"
      using assms g by (simp add: round64_def g_def field_simps)
    then show ?thesis using g by (simp add: abs_mult)
  qed
  also have "\<dots> \<le> \<bar>of_int j - x / g\<bar> * g"
    using g by (intro mult_right_mono round_even_nearest) simp
  also have "\<dots> = \<bar>of_int j * g - x\<bar>"
  proof -
    have "of_int j * g - x = (of_int j - x / g) * g"
      using g by (simp add: field_simps)
    then show ?thesis using g by (simp add: abs_mult)
  qed
  finally show ?thesis by (simp add: g_def)
qed

text \<open>No double is nearer to \<open>x\<close> than \<open>round64 x\<close>.\<close>

lemma round64_nearest:
  assumes "is_double d"
  shows "\<bar>round64 x - x\<bar> \<le> \<bar>d - x\<bar>"
proof (cases "x = 0")
  case True
  then show ?thesis by (simp add: round64_def)
next
  case x: False
  show ?thesis
  proof (cases "d = 0")
    case True
    then show ?thesis using round64_nearest_multiple [OF x, of 0] by simp
  next
    case d: False
    define k' where "k' = round_even (d / 2 powi gridexp d)"
    have dk: "d = of_int k' * 2 powi gridexp d"
      using assms d by (simp add: is_double_def round64_def k'_def)
    show ?thesis
    proof (cases "gridexp x \<le> gridexp d")
      case True
      have "(2::real) powi gridexp d = 2 powi (gridexp d - gridexp x) * 2 powi gridexp x"
        by (simp flip: power_int_add)
      also have "(2::real) powi (gridexp d - gridexp x) = 2 ^ nat (gridexp d - gridexp x)"
        using True by (simp add: power_int_def)
      finally have "d = of_int (k' * 2 ^ nat (gridexp d - gridexp x)) * 2 powi gridexp x"
        using dk by simp
      then show ?thesis
        using round64_nearest_multiple [OF x, of "k' * 2 ^ nat (gridexp d - gridexp x)"] by simp
    next
      case False
      then have lt: "gridexp d < gridexp x" by simp
      then have "- 1074 < gridexp x" using gridexp_ge [of d] by linarith
      then have low: "2 powi (gridexp x + 52) \<le> \<bar>x\<bar>" by (rule gridexp_lower [OF x])
      have "\<bar>d\<bar> < 2 powi (gridexp d + 53)" by (rule gridexp_upper [OF d])
      also have "\<dots> \<le> 2 powi (gridexp x + 52)"
        using lt by (intro power_int_increasing) simp_all
      finally have dlt: "\<bar>d\<bar> < 2 powi (gridexp x + 52)" .
      have b: "(2::real) powi (gridexp x + 52) = 2 ^ 52 * 2 powi gridexp x"
        by (simp add: power_int_add)
      have "\<bar>round64 x - x\<bar> \<le> \<bar>x\<bar> - 2 powi (gridexp x + 52)"
      proof (cases "0 < x")
        case True
        have "\<bar>round64 x - x\<bar> \<le> \<bar>of_int (2 ^ 52) * 2 powi gridexp x - x\<bar>"
          by (rule round64_nearest_multiple [OF x])
        then show ?thesis using True low by (simp add: b)
      next
        case False
        have "\<bar>round64 x - x\<bar> \<le> \<bar>of_int (- (2 ^ 52)) * 2 powi gridexp x - x\<bar>"
          by (rule round64_nearest_multiple [OF x])
        then show ?thesis using False low by (simp add: b)
      qed
      also have "\<dots> < \<bar>x\<bar> - \<bar>d\<bar>" using dlt by simp
      also have "\<dots> \<le> \<bar>d - x\<bar>" by linarith
      finally show ?thesis by simp
    qed
  qed
qed

lemma round64_is_double [simp]: "is_double x \<Longrightarrow> round64 x = x"
  by (simp add: is_double_def)

text \<open>Rounding does not cross a double.\<close>

lemma round64_le:
  assumes "is_double t" and "x \<le> t"
  shows "round64 x \<le> t"
proof (rule ccontr)
  assume "\<not> round64 x \<le> t"
  then have "\<bar>t - x\<bar> < \<bar>round64 x - x\<bar>" using assms(2) by linarith
  then show False using round64_nearest [OF assms(1), of x] by linarith
qed

lemma round64_ge:
  assumes "is_double s" and "s \<le> x"
  shows "s \<le> round64 x"
proof (rule ccontr)
  assume "\<not> s \<le> round64 x"
  then have "\<bar>s - x\<bar> < \<bar>round64 x - x\<bar>" using assms(2) by linarith
  then show False using round64_nearest [OF assms(1), of x] by linarith
qed

lemma is_double_0 [simp]: "is_double 0"
  by (simp add: is_double_def round64_def)

lemma round64_abs_le: "\<bar>round64 x\<bar> \<le> 2 * \<bar>x\<bar>"
  using round64_nearest [OF is_double_0, of x] by linarith


text \<open>Rounding a number whose binade is known.\<close>

lemma round64_eval:
  assumes "2 powi k \<le> \<bar>x\<bar>" and "\<bar>x\<bar> < 2 powi (k + 1)" and "- 1022 \<le> k"
  shows "round64 x = of_int (round_even (x * 2 powi (52 - k))) * 2 powi (k - 52)"
proof -
  have "0 < (2::real) powi k" by simp
  with assms(1) have "0 < \<bar>x\<bar>" by linarith
  then have x: "x \<noteq> 0" by simp
  have "\<lfloor>log 2 \<bar>x\<bar>\<rfloor> = k" using assms(1,2) by (rule floor_log2_eqI)
  then have g: "gridexp x = k - 52" using assms(3) by (simp add: gridexp_def)
  have "x / 2 powi (k - 52) = x * 2 powi (52 - k)"
    by (simp add: power_int_diff field_simps)
  then show ?thesis using x by (simp add: round64_def g)
qed

lemma lit_tenth: "lit (1 / 10) = 7205759403792794 / 2 ^ 56"
proof -
  have "round64 (1 / 10) = of_int (round_even (1 / 10 * 2 powi (52 - (- 4)))) * 2 powi (- 4 - 52)"
    by (rule round64_eval) (simp_all add: power_int_minus)
  also have "1 / 10 * (2::real) powi (52 - (- 4)) = 36028797018963968 / 5"
    by simp
  also have "round_even (36028797018963968 / 5) = 7205759403792794"
    by (simp add: round_even_def Let_def)
  finally show ?thesis by (simp add: lit_def power_int_minus field_simps)
qed

lemma is_double_lit [simp]: "is_double (lit x)"
  by (simp add: lit_def is_double_round64)

lemma is_double_jadd [simp]: "is_double (jadd a b)"
  by (simp add: jadd_def is_double_round64)

lemma is_double_1 [simp]: "is_double 1"
  using is_double_multiple [of 1 0] by simp

lemma is_double_eighth: "is_double (1 / 8)"
  using is_double_multiple [of 1 "- 3"] by (simp add: power_int_minus)

lemma is_double_three_halves: "is_double (3 / 2)"
  using is_double_multiple [of 3 "- 1"] by (simp add: power_int_minus)

lemma lit_three_halves: "lit (3 / 2) = 3 / 2"
  using is_double_three_halves by (simp add: lit_def)

text \<open>The factor of the easing lies between 0 and 1/8.\<close>

lemma lit_tenth_bounds: "0 \<le> lit (1 / 10)" "lit (1 / 10) \<le> 1 / 8"
  by (simp_all add: lit_tenth)

lemma jsub_nonneg: "s \<le> t \<Longrightarrow> 0 \<le> jsub t s"
  unfolding jsub_def by (rule round64_ge) simp_all

lemma jsub_nonpos: "t \<le> s \<Longrightarrow> jsub t s \<le> 0"
  unfolding jsub_def by (rule round64_le) simp_all

text \<open>One step of the easing stays between the scale and the target.\<close>

lemma ease_between_up:
  assumes "is_double s" and "is_double t" and "s \<le> t"
  shows "s \<le> ease s t" and "ease s t \<le> t"
proof -
  define d where "d = jsub t s"
  define c where "c = lit (1 / 10)"
  define inc where "inc = jmul d c"
  have d0: "0 \<le> d" unfolding d_def using assms(3) by (rule jsub_nonneg)
  have "\<bar>d\<bar> \<le> 2 * \<bar>t - s\<bar>" unfolding d_def jsub_def by (rule round64_abs_le)
  then have d2: "d \<le> 2 * (t - s)" using d0 assms(3) by simp
  have c: "0 \<le> c" "c \<le> 1 / 8" unfolding c_def by (rule lit_tenth_bounds)+
  have dc: "0 \<le> d * c" using d0 c by simp
  have "d * c \<le> (2 * (t - s)) * (1 / 8)"
    using d2 c d0 assms(3) by (intro mult_mono) simp_all
  then have dc4: "d * c \<le> (t - s) / 4" by simp
  have i0: "0 \<le> inc" unfolding inc_def jmul_def using dc by (intro round64_ge) simp_all
  have "\<bar>inc\<bar> \<le> 2 * \<bar>d * c\<bar>" unfolding inc_def jmul_def by (rule round64_abs_le)
  then have i2: "inc \<le> (t - s) / 2" using i0 dc dc4 by simp
  have e: "ease s t = round64 (s + inc)"
    by (simp add: ease_def jadd_def inc_def d_def c_def)
  show "s \<le> ease s t" unfolding e using assms(1) i0 by (intro round64_ge) simp_all
  show "ease s t \<le> t" unfolding e using assms(2,3) i2 by (intro round64_le) simp_all
qed

lemma ease_between_down:
  assumes "is_double s" and "is_double t" and "t \<le> s"
  shows "t \<le> ease s t" and "ease s t \<le> s"
proof -
  define d where "d = jsub t s"
  define c where "c = lit (1 / 10)"
  define inc where "inc = jmul d c"
  have d0: "d \<le> 0" unfolding d_def using assms(3) by (rule jsub_nonpos)
  have "\<bar>d\<bar> \<le> 2 * \<bar>t - s\<bar>" unfolding d_def jsub_def by (rule round64_abs_le)
  then have d2: "- d \<le> 2 * (s - t)" using d0 assms(3) by simp
  have c: "0 \<le> c" "c \<le> 1 / 8" unfolding c_def by (rule lit_tenth_bounds)+
  have dc: "d * c \<le> 0" using d0 c by (simp add: mult_nonpos_nonneg)
  have "(- d) * c \<le> (2 * (s - t)) * (1 / 8)"
    using d2 c d0 assms(3) by (intro mult_mono) simp_all
  then have dc4: "- (d * c) \<le> (s - t) / 4" by simp
  have i0: "inc \<le> 0" unfolding inc_def jmul_def using dc by (intro round64_le) simp_all
  have "\<bar>inc\<bar> \<le> 2 * \<bar>d * c\<bar>" unfolding inc_def jmul_def by (rule round64_abs_le)
  then have i2: "- inc \<le> (s - t) / 2" using i0 dc dc4 by simp
  have e: "ease s t = round64 (s + inc)"
    by (simp add: ease_def jadd_def inc_def d_def c_def)
  show "ease s t \<le> s" unfolding e using assms(1) i0 by (intro round64_le) simp_all
  show "t \<le> ease s t" unfolding e using assms(2,3) i2 by (intro round64_ge) simp_all
qed

lemma is_double_ease [simp]: "is_double (ease s t)"
  by (simp add: ease_def)

section \<open>The tick on one object and on the scene\<close>

lemma objects_traverse: "objects (traverse f n) = map f (objects n)"
proof (induction n)
  case (SceneNode ob cs)
  have "concat (map (objects \<circ> traverse f) cs) = map f (concat (map objects cs))"
    using SceneNode.IH by (induction cs) auto
  then show ?case by simp
qed

lemma userData_tick_obj [simp]: "userData (tick_obj d ob) = userData ob"
  by (simp add: tick_obj_def rotateOnAxis_def Let_def split: option.splits)

lemma position_tick_obj [simp]: "position (tick_obj d ob) = position ob"
  by (simp add: tick_obj_def rotateOnAxis_def Let_def split: option.splits)

lemma scale_tick_obj:
  "scale (tick_obj d ob) =
     (case targetScale (userData ob) of
        None \<Rightarrow> scale ob
      | Some t \<Rightarrow> setScalar (ease (vx (scale ob)) t))"
  by (simp add: tick_obj_def rotateOnAxis_def Let_def split: option.splits)

lemma quaternion_tick_obj:
  "quaternion (tick_obj d ob) =
     (case rotationAxis (userData ob) of
        None \<Rightarrow> quaternion ob
      | Some a \<Rightarrow>
         (case rotationSpeed (userData ob) of
            None \<Rightarrow> quaternion ob
          | Some sp \<Rightarrow> multiplyQ (quaternion ob) (setFromAxisAngle a (jmul sp d))))"
  by (simp add: tick_obj_def rotateOnAxis_def Let_def split: option.splits)

lemma userData_frames [simp]: "userData (frames ds ob) = userData ob"
  by (induction ds arbitrary: ob) simp_all

text \<open>When the original tick of the scene manager leaves the scene graph as it is, the
  overridden tick applies \<^const>\<open>tick_obj\<close> to every object of the scene.\<close>

lemma scene_tick:
  assumes "\<And>m'. scene (originalTick delta m') = scene m'"
  shows "objects (scene (tick originalTick delta m)) = map (tick_obj delta) (objects (scene m))"
  using assms by (simp add: tick_def objects_traverse)

lemma objects_initialManager: "objects (scene initialManager) = [newObject3D, sphere]"
  by (simp add: initialManager_def)

section \<open>Pointer events on one object\<close>

text \<open>A callback leaves the object alone or assigns its \<^verbatim>\<open>targetScale\<close>, nothing else.\<close>

lemma invoke_cases:
  "fst (invoke cb ob pg) = ob \<or> (\<exists>v. fst (invoke cb ob pg) = setTargetScale ob v)"
  by (cases cb) (auto simp: Let_def)

lemma step_cases:
  "fst (step e (ob, pg)) = ob
     \<or> fst (step e (ob, pg)) = tick_obj (case e of Frame d \<Rightarrow> d | _ \<Rightarrow> 0) ob
     \<or> (\<exists>v. fst (step e (ob, pg)) = setTargetScale ob v)"
  using invoke_cases [of _ ob pg]
  by (cases e) (auto simp: pointer_onClick_def pointer_onHoverEnter_def pointer_onHoverExit_def
        split: option.splits)

text \<open>Hence frames and pointer events change no entry of \<^verbatim>\<open>userData\<close> but \<^verbatim>\<open>targetScale\<close>.\<close>

lemma userData_step:
  "userData (fst (step e st)) =
     (userData (fst st))\<lparr>targetScale := targetScale (userData (fst (step e st)))\<rparr>"
  using step_cases [of e "fst st" "snd st"]
  by (auto simp: setTargetScale_def)

lemma userData_run:
  "userData (fst (run es st)) =
     (userData (fst st))\<lparr>targetScale := targetScale (userData (fst (run es st)))\<rparr>"
proof (induction es arbitrary: st)
  case Nil
  then show ?case by simp
next
  case (Cons e es)
  have "userData (fst (run es (step e st))) =
          (userData (fst (step e st)))
            \<lparr>targetScale := targetScale (userData (fst (run es (step e st))))\<rparr>"
    by (rule Cons.IH)
  also have "\<dots> = (userData (fst st))
            \<lparr>targetScale := targetScale (userData (fst (run es (step e st))))\<rparr>"
    by (subst userData_step) simp
  finally show ?case by simp
qed

lemma scale_makeInteractable:
  "scale (makeInteractable ob modalId opts) =
     setScalar (base (case opt_scale opts of
                        None \<Rightarrow> \<lparr>base = BASE_SCALE, hover = HOVER_SCALE, click = Some CLICK_SCALE\<rparr>
                      | Some sc \<Rightarrow> sc))"
  by (simp add: makeInteractable_def Let_def split: option.splits)

lemma targetScale_makeInteractable:
  "targetScale (userData (makeInteractable ob modalId opts)) =
     Some (base (case opt_scale opts of
                   None \<Rightarrow> \<lparr>base = BASE_SCALE, hover = HOVER_SCALE, click = Some CLICK_SCALE\<rparr>
                 | Some sc \<Rightarrow> sc))"
  by (simp add: makeInteractable_def Let_def split: option.splits)

lemma callbacks_makeInteractable:
  "onHoverEnter (userData (makeInteractable ob modalId opts)) =
     Some (HoverEnterCb (case opt_scale opts of
        None \<Rightarrow> \<lparr>base = BASE_SCALE, hover = HOVER_SCALE, click = Some CLICK_SCALE\<rparr>
      | Some sc \<Rightarrow> sc))"
  "onHoverExit (userData (makeInteractable ob modalId opts)) =
     Some (HoverExitCb (case opt_scale opts of
        None \<Rightarrow> \<lparr>base = BASE_SCALE, hover = HOVER_SCALE, click = Some CLICK_SCALE\<rparr>
      | Some sc \<Rightarrow> sc))"
  "onClick (userData (makeInteractable ob modalId opts)) =
     Some (ClickCb modalId (case opt_scale opts of
        None \<Rightarrow> \<lparr>base = BASE_SCALE, hover = HOVER_SCALE, click = Some CLICK_SCALE\<rparr>
      | Some sc \<Rightarrow> sc))"
  by (simp_all add: makeInteractable_def Let_def split: option.splits)


section \<open>Scale easing\<close>

text \<open>With a fixed target, the scale along x after the frames \<open>ds\<close> is the easing step
  iterated once per frame.\<close>

lemma vx_frames:
  "targetScale (userData ob) = Some t \<Longrightarrow>
     vx (scale (frames ds ob)) = ((\<lambda>s. ease s t) ^^ length ds) (vx (scale ob))"
proof (induction ds arbitrary: ob)
  case Nil
  then show ?case by simp
next
  case (Cons d ds)
  have "vx (scale (frames ds (tick_obj d ob))) =
          ((\<lambda>s. ease s t) ^^ length ds) (vx (scale (tick_obj d ob)))"
    using Cons.prems by (intro Cons.IH) simp
  also have "vx (scale (tick_obj d ob)) = ease (vx (scale ob)) t"
    using Cons.prems by (simp add: scale_tick_obj setScalar_def)
  finally show ?case by (simp del: funpow.simps add: funpow_Suc_right)
qed

text \<open>An iteration that, as long as it moves, decreases a natural number, stops moving.\<close>

lemma iterate_stalls:
  fixes f :: "'a \<Rightarrow> 'a" and \<mu> :: "'a \<Rightarrow> nat"
  assumes step: "\<And>s. I s \<Longrightarrow> I (f s) \<and> (f s = s \<or> \<mu> (f s) < \<mu> s)"
    and "I s0"
  shows "\<exists>N. f ((f ^^ N) s0) = (f ^^ N) s0"
  using \<open>I s0\<close>
proof (induction "\<mu> s0" arbitrary: s0 rule: less_induct)
  case less
  show ?case
  proof (cases "f s0 = s0")
    case True
    then have "f ((f ^^ 0) s0) = (f ^^ 0) s0" by simp
    then show ?thesis by blast
  next
    case False
    with step [OF less.prems] have "I (f s0)" and "\<mu> (f s0) < \<mu> s0" by auto
    then obtain N where "f ((f ^^ N) (f s0)) = (f ^^ N) (f s0)"
      using less.hyps by blast
    then have "f ((f ^^ Suc N) s0) = (f ^^ Suc N) s0"
      by (simp add: funpow_swap1)
    then show ?thesis by blast
  qed
qed

lemma funpow_fixed:
  assumes "f ((f ^^ N) s0) = (f ^^ N) s0" and "N \<le> n"
  shows "(f ^^ n) s0 = (f ^^ N) s0"
  using assms(2)
proof (induction n)
  case 0
  then show ?case by simp
next
  case (Suc n)
  show ?case
  proof (cases "N \<le> n")
    case True
    then have "(f ^^ n) s0 = (f ^^ N) s0" by (rule Suc.IH)
    then show ?thesis using assms(1) by simp
  next
    case False
    with Suc.prems have "N = Suc n" by simp
    then show ?thesis by simp
  qed
qed

text \<open>Every double is a multiple of the smallest positive double.\<close>

lemma minDouble_pos: "0 < minDouble"
  by (simp add: minDouble_def)

lemma is_double_multiple_min:
  assumes "is_double d"
  shows "\<exists>k. d = of_int k * minDouble"
proof (cases "d = 0")
  case True
  then have "d = of_int 0 * minDouble" by simp
  then show ?thesis by blast
next
  case False
  define k' where "k' = round_even (d / 2 powi gridexp d)"
  define m :: int where "m = - 1074"
  have dk: "d = of_int k' * 2 powi gridexp d"
    using assms False by (simp add: is_double_def round64_def k'_def)
  have ge: "m \<le> gridexp d" unfolding m_def by (rule gridexp_ge)
  have "(2::real) powi gridexp d = 2 powi (gridexp d - m) * 2 powi m"
    by (simp flip: power_int_add)
  also have "(2::real) powi (gridexp d - m) = 2 ^ nat (gridexp d - m)"
    using ge by (simp add: power_int_def)
  finally have "d = of_int (k' * 2 ^ nat (gridexp d - m)) * 2 powi m"
    using dk by simp
  then show ?thesis unfolding m_def minDouble_def by blast
qed

text \<open>From a double \<open>s\<close> to another double \<open>s'\<close> between \<open>s\<close> and \<open>t\<close>, the number of
  smallest doubles that fit between the double and \<open>t\<close> drops.\<close>

lemma steps_to_drop:
  assumes "is_double s" and "is_double s'" and "s' \<noteq> s"
    and "\<bar>t - s'\<bar> + \<bar>s' - s\<bar> = \<bar>t - s\<bar>"
  shows "nat \<lfloor>\<bar>t - s'\<bar> / minDouble\<rfloor> < nat \<lfloor>\<bar>t - s\<bar> / minDouble\<rfloor>"
proof -
  define u :: real where "u = minDouble"
  have u: "0 < u" by (simp add: u_def minDouble_pos)
  obtain k where k: "s = of_int k * u"
    using is_double_multiple_min [OF assms(1)] by (auto simp: u_def)
  obtain k' where k': "s' = of_int k' * u"
    using is_double_multiple_min [OF assms(2)] by (auto simp: u_def)
  have "k' \<noteq> k" using assms(3) k k' by auto
  then have "1 \<le> \<bar>k' - k\<bar>" by simp
  then have "(1::real) \<le> of_int \<bar>k' - k\<bar>" by (simp only: of_int_1_le_iff)
  then have "1 * u \<le> of_int \<bar>k' - k\<bar> * u" using u by (simp only: mult_le_cancel_right_pos)
  also have "\<dots> = \<bar>s' - s\<bar>"
    using u by (simp add: k k' abs_mult flip: left_diff_distrib)
  finally have "u \<le> \<bar>s' - s\<bar>" by simp
  then have "\<bar>t - s'\<bar> \<le> \<bar>t - s\<bar> - u" using assms(4) by linarith
  then have "\<bar>t - s'\<bar> / u \<le> (\<bar>t - s\<bar> - u) / u"
    using u by (intro divide_right_mono) simp_all
  also have "\<dots> = \<bar>t - s\<bar> / u - 1"
    using u by (simp add: diff_divide_distrib)
  finally have "\<bar>t - s'\<bar> / u \<le> \<bar>t - s\<bar> / u - 1" .
  then have "\<lfloor>\<bar>t - s'\<bar> / u\<rfloor> \<le> \<lfloor>\<bar>t - s\<bar> / u - 1\<rfloor>" by (rule floor_mono)
  then have le: "\<lfloor>\<bar>t - s'\<bar> / u\<rfloor> \<le> \<lfloor>\<bar>t - s\<bar> / u\<rfloor> - 1" by simp
  have "0 \<le> \<bar>t - s'\<bar> / u" using u by simp
  then have "0 \<le> \<lfloor>\<bar>t - s'\<bar> / u\<rfloor>" by simp
  with le have "nat \<lfloor>\<bar>t - s'\<bar> / u\<rfloor> < nat \<lfloor>\<bar>t - s\<bar> / u\<rfloor>" by linarith
  then show ?thesis by (simp only: u_def)
qed

lemma ease_between:
  assumes "is_double s" and "is_double t"
  shows "\<bar>t - ease s t\<bar> + \<bar>ease s t - s\<bar> = \<bar>t - s\<bar>"
proof (cases "s \<le> t")
  case True
  then have "s \<le> ease s t" "ease s t \<le> t"
    using assms by (auto intro: ease_between_up)
  then show ?thesis by simp
next
  case False
  then have "t \<le> ease s t" "ease s t \<le> s"
    using assms by (auto intro: ease_between_down)
  then show ?thesis by simp
qed

text \<open>With a fixed target, the easing stops moving after finitely many steps.\<close>

lemma ease_stalls:
  assumes "is_double s0" and "is_double t"
  shows "\<exists>N. ease (((\<lambda>s. ease s t) ^^ N) s0) t = ((\<lambda>s. ease s t) ^^ N) s0"
proof (rule iterate_stalls [where I = is_double
      and \<mu> = "\<lambda>s. nat \<lfloor>\<bar>t - s\<bar> / minDouble\<rfloor>" and f = "\<lambda>s. ease s t"])
  fix s
  assume I: "is_double s"
  have "ease s t = s \<or>
      nat \<lfloor>\<bar>t - ease s t\<bar> / minDouble\<rfloor> < nat \<lfloor>\<bar>t - s\<bar> / minDouble\<rfloor>"
  proof (cases "ease s t = s")
    case True
    then show ?thesis by simp
  next
    case False
    then show ?thesis
      using I assms(2) by (intro disjI2 steps_to_drop ease_between) simp_all
  qed
  then show "is_double (ease s t) \<and>
      (ease s t = s \<or> nat \<lfloor>\<bar>t - ease s t\<bar> / minDouble\<rfloor> < nat \<lfloor>\<bar>t - s\<bar> / minDouble\<rfloor>)"
    by simp
next
  show "is_double s0" by (rule assms(1))
qed

lemma is_double_funpow_ease: "is_double s0 \<Longrightarrow> is_double (((\<lambda>s. ease s t) ^^ n) s0)"
  by (cases n) simp_all

text \<open>The iterates stay ordered between the start and the target.\<close>

lemma funpow_ease_up:
  assumes "is_double s0" and "is_double t" and "s0 \<le> t"
  shows "s0 \<le> ((\<lambda>s. ease s t) ^^ n) s0 \<and> ((\<lambda>s. ease s t) ^^ n) s0 \<le> t"
proof (induction n)
  case 0
  then show ?case using assms by simp
next
  case (Suc n)
  define s where "s = ((\<lambda>s. ease s t) ^^ n) s0"
  have s: "is_double s" "s0 \<le> s" "s \<le> t"
    using Suc assms(1) by (simp_all add: s_def is_double_funpow_ease)
  have "s \<le> ease s t" "ease s t \<le> t"
    using s assms(2) by (auto intro: ease_between_up)
  then show ?case using s by (simp add: s_def)
qed

lemma funpow_ease_down:
  assumes "is_double s0" and "is_double t" and "t \<le> s0"
  shows "t \<le> ((\<lambda>s. ease s t) ^^ n) s0 \<and> ((\<lambda>s. ease s t) ^^ n) s0 \<le> s0"
proof (induction n)
  case 0
  then show ?case using assms by simp
next
  case (Suc n)
  define s where "s = ((\<lambda>s. ease s t) ^^ n) s0"
  have s: "is_double s" "t \<le> s" "s \<le> s0"
    using Suc assms(1) by (simp_all add: s_def is_double_funpow_ease)
  have "t \<le> ease s t" "ease s t \<le> s"
    using s assms(2) by (auto intro: ease_between_down)
  then show ?case using s by (simp add: s_def)
qed

lemma is_double_powi: "- 1074 \<le> e \<Longrightarrow> is_double (2 powi e)"
  using is_double_multiple [of 1 e] by simp

lemma is_double_minDouble: "is_double minDouble"
  unfolding minDouble_def by (rule is_double_powi) simp

lemma ulp_pos: "0 < ulp s"
  by (simp add: ulp_def minDouble_pos)

lemma ulp_powi: "\<exists>e \<ge> - 1074. ulp s = 2 powi e"
proof (cases "s = 0")
  case True
  then have "ulp s = 2 powi (- 1074)" unfolding ulp_def minDouble_def by simp
  then show ?thesis by (intro exI [of _ "- 1074"]) simp
next
  case False
  then show ?thesis using gridexp_ge [of s] by (auto simp: ulp_def)
qed

lemma is_double_ulp: "is_double (ulp s)"
  using ulp_powi [of s] is_double_powi by auto

lemma is_double_16_ulp: "is_double (16 * ulp s)"
proof -
  obtain e where e: "- 1074 \<le> e" "ulp s = 2 powi e" using ulp_powi [of s] by blast
  have "16 * (2::real) powi e = 2 powi (e + 4)" by (simp add: power_int_add)
  moreover have "is_double (2 powi (e + 4))" using e(1) by (intro is_double_powi) simp
  ultimately show ?thesis by (simp add: e(2))
qed

text \<open>A double one unit in the last place above or below a double.\<close>

lemma is_double_plus_ulp:
  assumes "is_double s"
  shows "is_double (s + ulp s)" and "is_double (s - ulp s)"
proof -
  have "is_double (s + ulp s) \<and> is_double (s - ulp s)"
  proof (cases "s = 0")
    case True
    have "is_double (of_int (- 1) * 2 powi (- 1074))"
      by (rule is_double_multiple) simp_all
    then show ?thesis using True is_double_minDouble by (simp add: ulp_def minDouble_def)
  next
    case False
    define e where "e = gridexp s"
    define k where "k = round_even (s / 2 powi e)"
    have sk: "s = of_int k * 2 powi e"
      using assms False by (simp add: is_double_def round64_def k_def e_def)
    have "\<bar>s\<bar> < 2 powi (e + 53)" unfolding e_def by (rule gridexp_upper [OF False])
    also have "\<dots> = 2 ^ 53 * 2 powi e" by (simp add: power_int_add)
    finally have "\<bar>of_int k :: real\<bar> * 2 powi e < 2 ^ 53 * 2 powi e"
      by (simp add: sk abs_mult)
    then have "\<bar>of_int k :: real\<bar> < 2 ^ 53" by simp
    then have "(of_int \<bar>k\<bar> :: real) < of_int (2 ^ 53)" by simp
    then have "\<bar>k\<bar> < 2 ^ 53" by (simp only: of_int_less_iff)
    then have "\<bar>k + 1\<bar> \<le> 2 ^ 53" "\<bar>k - 1\<bar> \<le> 2 ^ 53" by simp_all
    have e: "- 1074 \<le> e" unfolding e_def by (rule gridexp_ge)
    have up: "is_double (of_int (k + 1) * 2 powi e)"
      using \<open>\<bar>k + 1\<bar> \<le> 2 ^ 53\<close> e by (rule is_double_multiple)
    have down: "is_double (of_int (k - 1) * 2 powi e)"
      using \<open>\<bar>k - 1\<bar> \<le> 2 ^ 53\<close> e by (rule is_double_multiple)
    have u: "ulp s = 2 powi e" using False by (simp add: ulp_def e_def)
    have "s + ulp s = of_int (k + 1) * 2 powi e"
      by (subst sk) (simp add: u algebra_simps)
    moreover have "s - ulp s = of_int (k - 1) * 2 powi e"
      by (subst sk) (simp add: u algebra_simps)
    ultimately show ?thesis using up down by simp
  qed
  then show "is_double (s + ulp s)" and "is_double (s - ulp s)" by simp_all
qed

lemma ulp_le: "ulp s \<le> \<bar>s\<bar> / 2 ^ 52 + minDouble"
proof (cases "s = 0")
  case True
  then show ?thesis by (simp add: ulp_def)
next
  case False
  show ?thesis
  proof (cases "- 1074 < gridexp s")
    case True
    then have "2 powi (gridexp s + 52) \<le> \<bar>s\<bar>" by (rule gridexp_lower [OF False])
    then have "2 powi gridexp s * 2 ^ 52 \<le> \<bar>s\<bar>" by (simp add: power_int_add)
    then have "2 powi gridexp s \<le> \<bar>s\<bar> / 2 ^ 52" by (simp add: pos_le_divide_eq)
    then show ?thesis using False minDouble_pos by (simp add: ulp_def)
  next
    case g: False
    then have "gridexp s = - 1074" using gridexp_ge [of s] by linarith
    then have "ulp s = minDouble" using False by (simp add: ulp_def minDouble_def)
    then show ?thesis by simp
  qed
qed

lemma lit_tenth_ge: "1 / 16 \<le> lit (1 / 10)"
  by (simp add: lit_tenth)

text \<open>Where the easing has stopped, the target is less than 16 units in the last place
  away.\<close>

lemma ease_fixed_close_up:
  assumes "is_double s" and "is_double t" and "s \<le> t" and "ease s t = s"
  shows "t - s < 16 * ulp s"
proof (rule ccontr)
  assume "\<not> t - s < 16 * ulp s"
  then have far: "16 * ulp s \<le> t - s" by simp
  define d where "d = jsub t s"
  define c where "c = lit (1 / 10)"
  define inc where "inc = jmul d c"
  have d: "16 * ulp s \<le> d"
    unfolding d_def jsub_def using is_double_16_ulp far by (rule round64_ge)
  have c: "1 / 16 \<le> c" unfolding c_def by (rule lit_tenth_ge)
  have "ulp s = (16 * ulp s) * (1 / 16)" by simp
  also have "\<dots> \<le> d * c"
    using d c ulp_pos [of s] by (intro mult_mono) simp_all
  finally have "ulp s \<le> d * c" .
  then have "ulp s \<le> inc"
    unfolding inc_def jmul_def using is_double_ulp by (intro round64_ge)
  then have "s + ulp s \<le> s + inc" by simp
  then have "s + ulp s \<le> round64 (s + inc)"
    using is_double_plus_ulp(1) [OF assms(1)] by (intro round64_ge)
  moreover have "ease s t = round64 (s + inc)"
    by (simp add: ease_def jadd_def inc_def d_def c_def)
  ultimately show False using assms(4) ulp_pos [of s] by simp
qed

lemma ease_fixed_close_down:
  assumes "is_double s" and "is_double t" and "t \<le> s" and "ease s t = s"
  shows "s - t < 16 * ulp s"
proof (rule ccontr)
  assume "\<not> s - t < 16 * ulp s"
  then have far: "t - s \<le> - (16 * ulp s)" by simp
  define d where "d = jsub t s"
  define c where "c = lit (1 / 10)"
  define inc where "inc = jmul d c"
  have m16: "is_double (- (16 * ulp s))"
  proof -
    obtain e where e: "- 1074 \<le> e" "ulp s = 2 powi e" using ulp_powi [of s] by blast
    have "- (16 * (2::real) powi e) = of_int (- 1) * 2 powi (e + 4)" by (simp add: power_int_add)
    moreover have "is_double (of_int (- 1) * 2 powi (e + 4))"
      using e(1) by (intro is_double_multiple) simp_all
    ultimately show ?thesis by (simp add: e(2))
  qed
  have m1: "is_double (- ulp s)"
  proof -
    obtain e where e: "- 1074 \<le> e" "ulp s = 2 powi e" using ulp_powi [of s] by blast
    have "is_double (of_int (- 1) * 2 powi e)"
      using e(1) by (intro is_double_multiple) simp_all
    then show ?thesis by (simp add: e(2))
  qed
  have d: "d \<le> - (16 * ulp s)"
    unfolding d_def jsub_def using m16 far by (rule round64_le)
  have c: "1 / 16 \<le> c" unfolding c_def by (rule lit_tenth_ge)
  have "(16 * ulp s) * (1 / 16) \<le> (- d) * c"
    using d c ulp_pos [of s] by (intro mult_mono) simp_all
  then have "d * c \<le> - ulp s" by simp
  then have "inc \<le> - ulp s"
    unfolding inc_def jmul_def using m1 by (intro round64_le)
  then have "s + inc \<le> s - ulp s" by simp
  then have "round64 (s + inc) \<le> s - ulp s"
    using is_double_plus_ulp(2) [OF assms(1)] by (intro round64_le)
  moreover have "ease s t = round64 (s + inc)"
    by (simp add: ease_def jadd_def inc_def d_def c_def)
  ultimately show False using assms(4) ulp_pos [of s] by simp
qed

lemma round64_grid_point:
  assumes "2 powi k \<le> \<bar>x\<bar>" and "\<bar>x\<bar> < 2 powi (k + 1)" and "- 1022 \<le> k"
    and "round_even (x * 2 powi (52 - k)) = j"
  shows "round64 x = of_int j * 2 powi (k - 52)"
  using round64_eval [OF assms(1-3)] assms(4) by simp

text \<open>One step of the easing at four units in the last place below the target 1.5.\<close>

lemma ease_stalled: "ease (6755399441055740 / 2 ^ 52) (3 / 2) = 6755399441055740 / 2 ^ 52"
proof -
  define a :: real where "a = 6755399441055740 / 2 ^ 52"
  define b :: real where "b = 7205759403792794 / 2 ^ 106"
  define c :: real where "c = 1 / 2 ^ 50"
  have d: "jsub (3 / 2) a = c"
  proof -
    have "is_double (of_int 1 * 2 powi (- 50))"
      by (rule is_double_multiple) simp_all
    then have "is_double c" by (simp add: c_def power_int_minus field_simps)
    then have "round64 c = c" by (simp only: is_double_def)
    moreover have "3 / 2 - a = c" by (simp add: a_def c_def)
    ultimately show ?thesis by (simp only: jsub_def)
  qed
  have m: "jmul c (lit (1 / 10)) = b"
  proof -
    have "is_double (of_int 7205759403792794 * 2 powi (- 106))"
      by (rule is_double_multiple) simp_all
    then have "is_double b" by (simp add: b_def power_int_minus field_simps)
    then have "round64 b = b" by (simp only: is_double_def)
    moreover have "c * lit (1 / 10) = b"
      by (simp add: b_def c_def lit_tenth)
    ultimately show ?thesis by (simp only: jmul_def)
  qed
  have "jadd a b = of_int 6755399441055740 * 2 powi (0 - 52)"
    unfolding jadd_def
    by (rule round64_grid_point) (simp_all add: a_def b_def round_even_def Let_def)
  also have "\<dots> = a" by (simp add: a_def power_int_minus)
  finally have j: "jadd a b = a" .
  have "ease a (3 / 2) = a"
    unfolding ease_def by (simp only: d m j)
  then show ?thesis by (simp only: a_def)
qed

text \<open>
  C1, as the code has it. With a fixed target scale \<open>t\<close> (no pointer event between the
  frames) and the arithmetic of the script, the update \<open>s' = s + (t - s) * 0.1\<close> never
  overshoots: from a scale below the target the scale stays between the starting scale and
  the target, from a scale above it likewise, so the sign of \<open>t - s\<close> never flips. After
  finitely many frames the tick no longer changes the scale, and from then on the scale is
  within \<open>eps\<close> of \<open>t\<close> for every \<open>eps\<close> of at least \<open>(|s0| + |t|) / 2 ^ 48\<close> plus 16 times
  the smallest double. The magnitudes are those for which no operation of the update
  overflows.
\<close>

theorem scale_easing_settles:
  assumes "targetScale (userData ob) = Some t"
    and "is_double t" and "is_double (vx (scale ob))"
    and "\<bar>t\<bar> \<le> 2 ^ 1022" and "\<bar>vx (scale ob)\<bar> \<le> 2 ^ 1022"
  shows "(vx (scale ob) \<le> t \<longrightarrow>
            (\<forall>ds. vx (scale ob) \<le> vx (scale (frames ds ob)) \<and> vx (scale (frames ds ob)) \<le> t)) \<and>
         (t \<le> vx (scale ob) \<longrightarrow>
            (\<forall>ds. t \<le> vx (scale (frames ds ob)) \<and> vx (scale (frames ds ob)) \<le> vx (scale ob))) \<and>
         (\<exists>N. \<forall>ds. N \<le> length ds \<longrightarrow>
            vx (scale (tick_obj d (frames ds ob))) = vx (scale (frames ds ob))) \<and>
         (\<forall>eps. \<bar>vx (scale ob)\<bar> / 2 ^ 48 + \<bar>t\<bar> / 2 ^ 48 + 16 * minDouble \<le> eps \<longrightarrow>
            (\<exists>N. \<forall>ds. N \<le> length ds \<longrightarrow> \<bar>vx (scale (frames ds ob)) - t\<bar> < eps))"
proof -
  define s0 where "s0 = vx (scale ob)"
  define f where "f = (\<lambda>s. ease s t)"
  have fr: "vx (scale (frames ds ob)) = (f ^^ length ds) s0" for ds
    unfolding f_def s0_def by (rule vx_frames [OF assms(1)])
  have s0: "is_double s0" using assms(3) by (simp add: s0_def)
  have dbl: "is_double ((f ^^ n) s0)" for n
    unfolding f_def using s0 by (rule is_double_funpow_ease)
  have up: "s0 \<le> (f ^^ n) s0 \<and> (f ^^ n) s0 \<le> t" if "s0 \<le> t" for n
    unfolding f_def using s0 assms(2) that by (rule funpow_ease_up)
  have down: "t \<le> (f ^^ n) s0 \<and> (f ^^ n) s0 \<le> s0" if "t \<le> s0" for n
    unfolding f_def using s0 assms(2) that by (rule funpow_ease_down)
  obtain N where N: "f ((f ^^ N) s0) = (f ^^ N) s0"
    using ease_stalls [OF s0 assms(2)] by (auto simp: f_def)
  have const: "(f ^^ n) s0 = (f ^^ N) s0" if "N \<le> n" for n
    using N that by (rule funpow_fixed)
  define z where "z = (f ^^ N) s0"
  have z: "is_double z" "ease z t = z"
    using dbl [of N] N by (simp_all add: z_def f_def)
  have zb: "\<bar>z\<bar> \<le> \<bar>s0\<bar> + \<bar>t\<bar>"
    using up [of N] down [of N] unfolding z_def by (cases "s0 \<le> t") auto
  have close: "\<bar>z - t\<bar> < 16 * ulp z"
  proof (cases "z \<le> t")
    case True
    then show ?thesis using ease_fixed_close_up [OF z(1) assms(2) True z(2)] by simp
  next
    case False
    then have "t \<le> z" by simp
    then show ?thesis using ease_fixed_close_down [OF z(1) assms(2) _ z(2)] by simp
  qed
  have "16 * ulp z \<le> 16 * (\<bar>z\<bar> / 2 ^ 52 + minDouble)"
    using ulp_le [of z] by simp
  also have "\<dots> = \<bar>z\<bar> / 2 ^ 48 + 16 * minDouble" by simp
  also have "\<dots> \<le> (\<bar>s0\<bar> + \<bar>t\<bar>) / 2 ^ 48 + 16 * minDouble"
    using zb by (simp add: divide_right_mono)
  finally have bound: "\<bar>z - t\<bar> < \<bar>s0\<bar> / 2 ^ 48 + \<bar>t\<bar> / 2 ^ 48 + 16 * minDouble"
    using close by (simp add: add_divide_distrib)
  have 1: "vx (scale ob) \<le> t \<longrightarrow>
      (\<forall>ds. vx (scale ob) \<le> vx (scale (frames ds ob)) \<and> vx (scale (frames ds ob)) \<le> t)"
    using up by (simp add: fr s0_def [symmetric])
  have 2: "t \<le> vx (scale ob) \<longrightarrow>
      (\<forall>ds. t \<le> vx (scale (frames ds ob)) \<and> vx (scale (frames ds ob)) \<le> vx (scale ob))"
    using down by (simp add: fr s0_def [symmetric])
  have 3: "\<exists>N. \<forall>ds. N \<le> length ds \<longrightarrow>
      vx (scale (tick_obj d (frames ds ob))) = vx (scale (frames ds ob))"
  proof (intro exI [of _ N] allI impI)
    fix ds :: "real list"
    assume "N \<le> length ds"
    then have "vx (scale (frames ds ob)) = z" unfolding fr z_def by (rule const)
    then show "vx (scale (tick_obj d (frames ds ob))) = vx (scale (frames ds ob))"
      using assms(1) z(2) by (simp add: scale_tick_obj setScalar_def)
  qed
  have 4: "\<forall>eps. \<bar>vx (scale ob)\<bar> / 2 ^ 48 + \<bar>t\<bar> / 2 ^ 48 + 16 * minDouble \<le> eps \<longrightarrow>
      (\<exists>N. \<forall>ds. N \<le> length ds \<longrightarrow> \<bar>vx (scale (frames ds ob)) - t\<bar> < eps)"
  proof (intro allI impI)
    fix eps
    assume e: "\<bar>vx (scale ob)\<bar> / 2 ^ 48 + \<bar>t\<bar> / 2 ^ 48 + 16 * minDouble \<le> eps"
    have "\<bar>vx (scale (frames ds ob)) - t\<bar> < eps" if "N \<le> length ds" for ds
    proof -
      have "vx (scale (frames ds ob)) = z" unfolding fr z_def using that by (rule const)
      then show ?thesis using bound e by (simp add: s0_def)
    qed
    then show "\<exists>N. \<forall>ds. N \<le> length ds \<longrightarrow> \<bar>vx (scale (frames ds ob)) - t\<bar> < eps"
      by blast
  qed
  show ?thesis using 1 2 3 4 by blast
qed

text \<open>The sphere at rest under the pointer: scale 1, target 1.5.\<close>

lemma minDouble_small: "16 * minDouble \<le> 1 / 2 ^ 48"
proof -
  have "(2::real) powi (- 1074) \<le> 2 powi (- 52)"
    by (intro power_int_increasing) simp_all
  then show ?thesis by (simp add: minDouble_def power_int_minus)
qed

theorem scale_easing_settles_witness:
  "targetScale (userData (setTargetScale sphere (lit 1.5))) = Some (3 / 2) \<and>
   is_double (3 / 2) \<and> is_double (vx (scale (setTargetScale sphere (lit 1.5)))) \<and>
   \<bar>3 / 2 :: real\<bar> \<le> 2 ^ 1022 \<and> \<bar>vx (scale (setTargetScale sphere (lit 1.5)))\<bar> \<le> 2 ^ 1022 \<and>
   vx (scale (setTargetScale sphere (lit 1.5))) \<le> 3 / 2 \<and>
   (\<forall>ds. 1 \<le> vx (scale (frames ds (setTargetScale sphere (lit 1.5)))) \<and>
         vx (scale (frames ds (setTargetScale sphere (lit 1.5)))) \<le> 3 / 2) \<and>
   (\<exists>N. \<forall>ds. N \<le> length ds \<longrightarrow>
      \<bar>vx (scale (frames ds (setTargetScale sphere (lit 1.5)))) - 3 / 2\<bar> < 1 / 2 ^ 45)"
proof -
  define ob where "ob = setTargetScale sphere (lit 1.5)"
  have t: "targetScale (userData ob) = Some (3 / 2)"
    by (simp add: ob_def setTargetScale_def lit_three_halves)
  have s: "vx (scale ob) = 1"
    by (simp add: ob_def setTargetScale_def sphere_def newObject3D_def)
  have ds: "is_double (vx (scale ob))" by (simp add: s)
  have b: "\<bar>3 / 2 :: real\<bar> \<le> 2 ^ 1022" "\<bar>vx (scale ob)\<bar> \<le> 2 ^ 1022"
    by (simp_all add: s)
  have e: "\<bar>vx (scale ob)\<bar> / 2 ^ 48 + \<bar>3 / 2 :: real\<bar> / 2 ^ 48 + 16 * minDouble \<le> 1 / 2 ^ 45"
    using minDouble_small by (simp add: s)
  note th = scale_easing_settles [OF t is_double_three_halves ds b]
  have 1: "\<forall>ds. 1 \<le> vx (scale (frames ds ob)) \<and> vx (scale (frames ds ob)) \<le> 3 / 2"
    using th s by simp
  have 2: "\<exists>N. \<forall>ds. N \<le> length ds \<longrightarrow> \<bar>vx (scale (frames ds ob)) - 3 / 2\<bar> < 1 / 2 ^ 45"
    using th e by blast
  show ?thesis
    using t ds b s 1 2 is_double_three_halves unfolding ob_def [symmetric] by simp
qed

lemma frames_stalledSphere:
  "scale (frames ds stalledSphere) = setScalar (6755399441055740 / 2 ^ 52)"
proof -
  have t: "targetScale (userData stalledSphere) = Some (3 / 2)"
    by (simp add: stalledSphere_def setTargetScale_def lit_three_halves)
  have s: "scale stalledSphere = setScalar (6755399441055740 / 2 ^ 52)"
    by (simp add: stalledSphere_def setTargetScale_def)
  have "scale (frames ds ob) = setScalar (6755399441055740 / 2 ^ 52)"
    if "targetScale (userData ob) = Some (3 / 2)"
      and "scale ob = setScalar (6755399441055740 / 2 ^ 52)" for ob
    using that
  proof (induction ds arbitrary: ob)
    case Nil
    then show ?case by simp
  next
    case (Cons d ds)
    have x: "vx (scale ob) = 6755399441055740 / 2 ^ 52"
      unfolding Cons.prems(2) setScalar_def by (rule vector3.select_convs)
    have "scale (tick_obj d ob) = setScalar (ease (vx (scale ob)) (3 / 2))"
      by (simp only: scale_tick_obj Cons.prems(1) option.case)
    also have "\<dots> = setScalar (6755399441055740 / 2 ^ 52)"
      by (simp only: x ease_stalled)
    finally have "scale (tick_obj d ob) = setScalar (6755399441055740 / 2 ^ 52)" .
    moreover have "targetScale (userData (tick_obj d ob)) = Some (3 / 2)"
      using Cons.prems(1) by simp
    ultimately have "scale (frames ds (tick_obj d ob)) = setScalar (6755399441055740 / 2 ^ 52)"
      by (intro Cons.IH)
    then show ?case by simp
  qed
  then show ?thesis using t s by blast
qed

text \<open>
  C1 as the claim states it fails in the arithmetic of the script. The sphere under the
  pointer has the target 1.5; at the scale four units in the last place below 1.5 the
  tick leaves the scale as it is, so the scale stays \<open>4 / 2 ^ 52\<close> away from the target and
  never comes within \<open>1 / 2 ^ 52\<close> of it.
\<close>

theorem easing_stall_counterexample:
  "targetScale (userData stalledSphere) = Some (3 / 2) \<and>
   vx (scale stalledSphere) = 6755399441055740 / 2 ^ 52 \<and>
   (3 / 2 - 6755399441055740 / 2 ^ 52 :: real) = 4 / 2 ^ 52 \<and>
   scale (tick_obj (1 / 60) stalledSphere) = scale stalledSphere \<and>
   (\<forall>ds. \<bar>vx (scale (frames ds stalledSphere)) - 3 / 2\<bar> = 4 / 2 ^ 52) \<and>
   \<not> (\<exists>N. \<forall>ds. N \<le> length ds \<longrightarrow>
         \<bar>vx (scale (frames ds stalledSphere)) - 3 / 2\<bar> < 1 / 2 ^ 52)"
proof -
  have t: "targetScale (userData stalledSphere) = Some (3 / 2)"
    by (simp add: stalledSphere_def setTargetScale_def lit_three_halves)
  have f: "scale (frames ds stalledSphere) = setScalar (6755399441055740 / 2 ^ 52)" for ds
    by (rule frames_stalledSphere)
  have x: "vx (scale (frames ds stalledSphere)) = 6755399441055740 / 2 ^ 52" for ds
    unfolding f setScalar_def by (rule vector3.select_convs)
  have d: "\<bar>vx (scale (frames ds stalledSphere)) - 3 / 2\<bar> = 4 / 2 ^ 52" for ds
    unfolding x by simp
  have one: "scale (tick_obj (1 / 60) stalledSphere) = scale stalledSphere"
    using f [of "[1 / 60]"] f [of "[]"] by simp
  have never: "\<not> (\<exists>N. \<forall>ds. N \<le> length ds \<longrightarrow>
         \<bar>vx (scale (frames ds stalledSphere)) - 3 / 2\<bar> < 1 / 2 ^ 52)"
  proof
    assume "\<exists>N. \<forall>ds. N \<le> length ds \<longrightarrow>
         \<bar>vx (scale (frames ds stalledSphere)) - 3 / 2\<bar> < 1 / 2 ^ 52"
    then obtain N where "\<forall>ds. N \<le> length ds \<longrightarrow>
         \<bar>vx (scale (frames ds stalledSphere)) - 3 / 2\<bar> < 1 / 2 ^ 52" ..
    then have "\<bar>vx (scale (frames (replicate N 0) stalledSphere)) - 3 / 2\<bar> < 1 / 2 ^ 52"
      by simp
    then show False unfolding d by simp
  qed
  have "(3 / 2 - 6755399441055740 / 2 ^ 52 :: real) = 4 / 2 ^ 52"
    by simp
  then show ?thesis using t x [of "[]"] one d never by simp
qed

section \<open>One tick on the scene\<close>

text \<open>
  C4. In one tick, every object of the scene that carries a \<^verbatim>\<open>targetScale\<close> \<open>t\<close> gets the
  scale \<open>s + (t - s) * 0.1\<close>, in the arithmetic of the script, on its three axes, where \<open>s\<close>
  is its scale along x before the tick. The original tick of the scene manager is assumed
  to leave the scene graph alone.
\<close>

theorem tick_scale_update:
  assumes "\<And>m'. scene (originalTick delta m') = scene m'"
    and "i < length (objects (scene m))"
    and "targetScale (userData (objects (scene m) ! i)) = Some t"
  shows "scale (objects (scene (tick originalTick delta m)) ! i) =
           setScalar (jadd (vx (scale (objects (scene m) ! i)))
                        (jmul (jsub t (vx (scale (objects (scene m) ! i)))) (lit 0.1)))"
  using assms by (simp add: scene_tick scale_tick_obj ease_def)

text \<open>The sphere at rest, in the scene: scale 1, target 1.\<close>

theorem tick_scale_update_witness:
  "Suc 0 < length (objects (scene initialManager)) \<and>
   targetScale (userData (objects (scene initialManager) ! Suc 0)) = Some 1 \<and>
   scale (objects (scene (tick (\<lambda>d m. m) (1 / 60) initialManager)) ! Suc 0) =
     setScalar (jadd 1 (jmul (jsub 1 1) (lit 0.1)))"
proof -
  have i: "Suc 0 < length (objects (scene initialManager))"
    by (simp add: objects_initialManager)
  have t: "targetScale (userData (objects (scene initialManager) ! Suc 0)) = Some 1"
    by (simp add: objects_initialManager sphere_def)
  have s: "vx (scale (objects (scene initialManager) ! Suc 0)) = 1"
    by (simp add: objects_initialManager sphere_def newObject3D_def)
  have "scale (objects (scene (tick (\<lambda>d m. m) (1 / 60) initialManager)) ! Suc 0) =
          setScalar (jadd (vx (scale (objects (scene initialManager) ! Suc 0)))
             (jmul (jsub 1 (vx (scale (objects (scene initialManager) ! Suc 0)))) (lit 0.1)))"
    by (rule tick_scale_update [OF _ i t]) simp
  then show ?thesis using i t unfolding s by simp
qed

section \<open>The base state\<close>

lemma ease_same: "is_double t \<Longrightarrow> ease t t = t"
  by (simp add: ease_def jsub_def jmul_def jadd_def round64_def [of 0])

lemma tick_obj_fixed:
  "targetScale (userData ob) = Some t \<Longrightarrow> is_double t \<Longrightarrow> scale ob = setScalar t \<Longrightarrow>
     scale (tick_obj d ob) = scale ob"
  by (simp add: scale_tick_obj ease_same setScalar_def)

lemma frames_fixed:
  "targetScale (userData ob) = Some t \<Longrightarrow> is_double t \<Longrightarrow> scale ob = setScalar t \<Longrightarrow>
     scale (frames ds ob) = scale ob"
proof (induction ds arbitrary: ob)
  case Nil
  then show ?case by simp
next
  case (Cons d ds)
  have "scale (frames ds (tick_obj d ob)) = scale (tick_obj d ob)"
    using Cons.prems by (intro Cons.IH) (simp_all add: tick_obj_fixed)
  then show ?case using Cons.prems by (simp add: tick_obj_fixed)
qed

text \<open>
  C9. The base state is a fixed point of the easing. When the scale along x equals the
  target, a double, the tick leaves that number as it is; when the whole scale equals the
  target, the tick leaves the scale as it is. \<^verbatim>\<open>makeInteractable\<close> sets both to
  \<^verbatim>\<open>scale.base\<close>, so any number of frames without a pointer event leaves the scale of the
  object where \<^verbatim>\<open>makeInteractable\<close> put it.
\<close>

theorem base_state_fixed_point:
  "(targetScale (userData ob) = Some t \<and> is_double t \<and> vx (scale ob) = t \<longrightarrow>
      vx (scale (tick_obj delta ob)) = t) \<and>
   (targetScale (userData ob) = Some t \<and> is_double t \<and> scale ob = setScalar t \<longrightarrow>
      scale (tick_obj delta ob) = scale ob) \<and>
   targetScale (userData (makeInteractable ob0 modalId opts)) =
      Some (vx (scale (makeInteractable ob0 modalId opts))) \<and>
   (is_double (vx (scale (makeInteractable ob0 modalId opts))) \<longrightarrow>
      scale (frames ds (makeInteractable ob0 modalId opts)) =
        scale (makeInteractable ob0 modalId opts))"
proof -
  have t: "targetScale (userData (makeInteractable ob0 modalId opts)) =
      Some (vx (scale (makeInteractable ob0 modalId opts)))"
    by (simp add: targetScale_makeInteractable scale_makeInteractable setScalar_def)
  have s: "scale (makeInteractable ob0 modalId opts) =
      setScalar (vx (scale (makeInteractable ob0 modalId opts)))"
    by (simp add: scale_makeInteractable setScalar_def)
  have "scale (frames ds (makeInteractable ob0 modalId opts)) =
          scale (makeInteractable ob0 modalId opts)"
    if "is_double (vx (scale (makeInteractable ob0 modalId opts)))"
    using t that s by (rule frames_fixed)
  moreover have "targetScale (userData ob) = Some t \<and> is_double t \<and> vx (scale ob) = t \<longrightarrow>
      vx (scale (tick_obj delta ob)) = t"
    by (simp add: scale_tick_obj ease_same setScalar_def)
  ultimately show ?thesis using t by (simp add: tick_obj_fixed)
qed

text \<open>The sphere at rest, and an object just made interactable with the default scales.\<close>

theorem base_state_fixed_point_witness:
  "targetScale (userData sphere) = Some 1 \<and> is_double 1 \<and> vx (scale sphere) = 1 \<and>
   scale sphere = setScalar 1 \<and>
   vx (scale (tick_obj (1 / 60) sphere)) = 1 \<and>
   scale (tick_obj (1 / 60) sphere) = scale sphere \<and>
   is_double (vx (scale (makeInteractable newObject3D None \<lparr>opt_scale = None, opt_rotation = None\<rparr>))) \<and>
   scale (frames [1 / 60, 1 / 60]
      (makeInteractable newObject3D None \<lparr>opt_scale = None, opt_rotation = None\<rparr>)) =
     scale (makeInteractable newObject3D None \<lparr>opt_scale = None, opt_rotation = None\<rparr>)"
proof -
  have h: "targetScale (userData sphere) = Some 1" "vx (scale sphere) = 1"
      "scale sphere = setScalar 1"
    by (simp_all add: sphere_def newObject3D_def setScalar_def)
  have b: "is_double (vx (scale (makeInteractable newObject3D None
      \<lparr>opt_scale = None, opt_rotation = None\<rparr>)))"
    by (simp add: scale_makeInteractable setScalar_def BASE_SCALE_def)
  show ?thesis
    using base_state_fixed_point [of sphere 1 "1 / 60" newObject3D None
        "\<lparr>opt_scale = None, opt_rotation = None\<rparr>" "[1 / 60, 1 / 60]"] h b
    by simp
qed

section \<open>Uniform scale\<close>

lemma uniform_setScalar [simp]: "uniform (setScalar s)"
  by (simp add: uniform_def setScalar_def)

lemma uniform_tick_obj: "uniform (scale ob) \<Longrightarrow> uniform (scale (tick_obj d ob))"
  by (simp add: scale_tick_obj split: option.splits)

lemma uniform_step: "uniform (scale (fst st)) \<Longrightarrow> uniform (scale (fst (step e st)))"
  using step_cases [of e "fst st" "snd st"]
  by (auto simp: setTargetScale_def uniform_tick_obj)

lemma uniform_run: "uniform (scale (fst st)) \<Longrightarrow> uniform (scale (fst (run es st)))"
  by (induction es arbitrary: st) (simp_all add: uniform_step)

text \<open>
  C10. \<^verbatim>\<open>makeInteractable\<close> leaves the object with a uniform scale, whatever scale it had,
  and the scale stays uniform through every later frame and pointer event. For any
  object that carries a \<^verbatim>\<open>targetScale\<close> (the sphere too, which \<^verbatim>\<open>makeInteractable\<close> never
  sees), the scale is uniform after one tick, whatever it was before.
\<close>

theorem uniform_scale_invariant:
  "uniform (scale (makeInteractable ob modalId opts)) \<and>
   uniform (scale (fst (run es (makeInteractable ob modalId opts, pg)))) \<and>
   (targetScale (userData ob') \<noteq> None \<longrightarrow> uniform (scale (tick_obj delta ob')))"
proof -
  have u: "uniform (scale (makeInteractable ob modalId opts))"
    by (simp add: scale_makeInteractable)
  then have "uniform (scale (fst (run es (makeInteractable ob modalId opts, pg))))"
    by (intro uniform_run) simp
  moreover have "targetScale (userData ob') \<noteq> None \<longrightarrow> uniform (scale (tick_obj delta ob'))"
    by (auto simp: scale_tick_obj)
  ultimately show ?thesis using u by blast
qed

text \<open>The sphere with a scale that is not uniform.\<close>

theorem uniform_scale_invariant_witness:
  "targetScale (userData (sphere\<lparr>scale := \<lparr>vx = 1, vy = 2, vz = 3\<rparr>\<rparr>)) \<noteq> None \<and>
   \<not> uniform (scale (sphere\<lparr>scale := \<lparr>vx = 1, vy = 2, vz = 3\<rparr>\<rparr>)) \<and>
   uniform (scale (tick_obj (1 / 60) (sphere\<lparr>scale := \<lparr>vx = 1, vy = 2, vz = 3\<rparr>\<rparr>)))"
proof -
  have h: "targetScale (userData (sphere\<lparr>scale := \<lparr>vx = 1, vy = 2, vz = 3\<rparr>\<rparr>)) \<noteq> None"
    by (simp add: sphere_def)
  have n: "\<not> uniform (scale (sphere\<lparr>scale := \<lparr>vx = 1, vy = 2, vz = 3\<rparr>\<rparr>))"
    by (simp add: uniform_def)
  show ?thesis
    using uniform_scale_invariant [of _ _ _ _ _ "sphere\<lparr>scale := \<lparr>vx = 1, vy = 2, vz = 3\<rparr>\<rparr>"] h n
    by blast
qed

section \<open>What a tick changes\<close>

text \<open>
  C7. One tick changes, of an object of the scene, the orientation (when the object has a
  rotation axis and a rotation speed) and the scale (when it has a \<^verbatim>\<open>targetScale\<close>), and
  nothing else: the position and the whole of \<^verbatim>\<open>userData\<close> (\<^verbatim>\<open>targetScale\<close>, the scale
  descriptor, the callbacks) are as before. The original tick of the scene manager is
  assumed to leave the scene graph alone.
\<close>

theorem tick_frame_effect:
  assumes "\<And>m'. scene (originalTick delta m') = scene m'"
    and "i < length (objects (scene m))"
  shows "(let before = objects (scene m) ! i;
              after = objects (scene (tick originalTick delta m)) ! i
          in position after = position before \<and>
             userData after = userData before \<and>
             isMesh after = isMesh before \<and>
             material after = material before \<and>
             castShadow after = castShadow before \<and>
             receiveShadow after = receiveShadow before \<and>
             (rotationAxis (userData before) = None \<or> rotationSpeed (userData before) = None
                \<longrightarrow> quaternion after = quaternion before) \<and>
             (targetScale (userData before) = None \<longrightarrow> scale after = scale before))"
  using assms
  by (auto simp: scene_tick Let_def scale_tick_obj quaternion_tick_obj tick_obj_def
        rotateOnAxis_def split: option.splits)

text \<open>The scene with the sphere: the tick leaves the root as it is, and changes neither
  the position nor the \<^verbatim>\<open>userData\<close> nor the orientation of the sphere.\<close>

theorem tick_frame_effect_witness:
  "0 < length (objects (scene initialManager)) \<and>
   rotationAxis (userData (objects (scene initialManager) ! 0)) = None \<and>
   targetScale (userData (objects (scene initialManager) ! 0)) = None \<and>
   objects (scene (tick (\<lambda>d m. m) (1 / 60) initialManager)) ! 0 = objects (scene initialManager) ! 0 \<and>
   Suc 0 < length (objects (scene initialManager)) \<and>
   position (objects (scene (tick (\<lambda>d m. m) (1 / 60) initialManager)) ! Suc 0) = position sphere \<and>
   userData (objects (scene (tick (\<lambda>d m. m) (1 / 60) initialManager)) ! Suc 0) = userData sphere \<and>
   quaternion (objects (scene (tick (\<lambda>d m. m) (1 / 60) initialManager)) ! Suc 0) = quaternion sphere"
proof -
  have o: "\<And>m'. scene ((\<lambda>d m. m) (1 / 60 :: real) m') = scene (m' :: manager)"
    by simp
  have i0: "0 < length (objects (scene initialManager))"
    and i1: "Suc 0 < length (objects (scene initialManager))"
    by (simp_all add: objects_initialManager)
  have n: "rotationAxis (userData (objects (scene initialManager) ! 0)) = None"
      "targetScale (userData (objects (scene initialManager) ! 0)) = None"
      "rotationAxis (userData (objects (scene initialManager) ! Suc 0)) = None"
    by (simp_all add: objects_initialManager newObject3D_def emptyUserData_def sphere_def)
  have s: "objects (scene initialManager) ! Suc 0 = sphere"
    by (simp add: objects_initialManager)
  show ?thesis
    using tick_frame_effect [of "\<lambda>d m. m" "1 / 60" 0 initialManager, OF o i0]
      tick_frame_effect [of "\<lambda>d m. m" "1 / 60" "Suc 0" initialManager, OF o i1] i0 i1 n
    unfolding Let_def s
    by (simp add: object3d.equality)
qed

section \<open>The rotation descriptor\<close>






section \<open>The callbacks\<close>

text \<open>
  C5, as the code has it. On an object that \<^verbatim>\<open>makeInteractable\<close> has set up, at any later
  time, the hover-enter callback assigns \<^verbatim>\<open>scale.hover\<close> to \<^verbatim>\<open>targetScale\<close>, the hover-exit
  callback assigns \<^verbatim>\<open>scale.base\<close>, and the click callback assigns \<^verbatim>\<open>scale.click\<close>, or
  \<^verbatim>\<open>scale.hover\<close> when \<^verbatim>\<open>click\<close> is absent. The hover callbacks leave the page as it is. The
  click callback opens the modal \<^verbatim>\<open>modalId\<close> when \<^verbatim>\<open>modalId\<close> is truthy, that is given and not
  the empty string, and opens nothing otherwise.
\<close>

theorem callbacks_set_targetScale:
  "(let sc = (case opt_scale opts of
                None \<Rightarrow> \<lparr>base = BASE_SCALE, hover = HOVER_SCALE, click = Some CLICK_SCALE\<rparr>
              | Some sc \<Rightarrow> sc);
        ob' = fst (run es (makeInteractable ob modalId opts, pg0))
    in pointer_onHoverEnter ob' pg = (setTargetScale ob' (hover sc), pg) \<and>
       pointer_onHoverExit ob' pg = (setTargetScale ob' (base sc), pg) \<and>
       pointer_onClick ob' pg =
         (setTargetScale ob' (case click sc of None \<Rightarrow> hover sc | Some c \<Rightarrow> c),
          pg\<lparr>opened := opened pg @ (if truthy modalId then [the modalId] else [])\<rparr>) \<and>
       (\<forall>v. targetScale (userData (setTargetScale ob' v)) = Some v))"
proof -
  define ob' where "ob' = fst (run es (makeInteractable ob modalId opts, pg0))"
  have ud: "userData ob' =
      (userData (makeInteractable ob modalId opts))\<lparr>targetScale := targetScale (userData ob')\<rparr>"
    unfolding ob'_def using userData_run [of es "(makeInteractable ob modalId opts, pg0)"] by simp
  have 1: "onHoverEnter (userData ob') = onHoverEnter (userData (makeInteractable ob modalId opts))"
    by (subst ud) simp
  have 2: "onHoverExit (userData ob') = onHoverExit (userData (makeInteractable ob modalId opts))"
    by (subst ud) simp
  have 3: "onClick (userData ob') = onClick (userData (makeInteractable ob modalId opts))"
    by (subst ud) simp
  show ?thesis
    unfolding Let_def ob'_def [symmetric]
    by (simp add: pointer_onHoverEnter_def pointer_onHoverExit_def pointer_onClick_def 1 2 3
        callbacks_makeInteractable setTargetScale_def openModal_def Let_def)
qed

text \<open>C5 as the claim states it fails for the empty string: a \<^verbatim>\<open>modalId\<close> was supplied, and
  the click opens no modal.\<close>

theorem empty_modalId_counterexample:
  "opened (snd (pointer_onClick
      (makeInteractable newObject3D (Some '''') \<lparr>opt_scale = None, opt_rotation = None\<rparr>)
      \<lparr>opened = [], href = ''index.html''\<rparr>)) = []"
  by (simp add: pointer_onClick_def makeInteractable_def Let_def truthy_def)

section \<open>Edge pan\<close>

text \<open>The thresholds of the edge pan.\<close>

lemma edgeMargin_value: "edgeMargin = 7205759403792794 / 2 ^ 57"
proof -
  have "round64 (1 / 20) = of_int 7205759403792794 * 2 powi (- 5 - 52)"
    by (rule round64_grid_point) (simp_all add: power_int_minus round_even_def Let_def)
  then show ?thesis by (simp add: edgeMargin_def lit_def power_int_minus)
qed

lemma upper_threshold_value: "jsub 1 edgeMargin = 8556839292003942 / 2 ^ 53"
proof -
  have "round64 (1 - 7205759403792794 / 2 ^ 57) = of_int 8556839292003942 * 2 powi (- 1 - 52)"
    by (rule round64_grid_point) (simp_all add: power_int_minus round_even_def Let_def)
  then show ?thesis by (simp add: jsub_def edgeMargin_value power_int_minus)
qed

lemma round64_095: "round64 (19 / 20) = 8556839292003942 / 2 ^ 53"
proof -
  have "round64 (19 / 20) = of_int 8556839292003942 * 2 powi (- 1 - 52)"
    by (rule round64_grid_point) (simp_all add: power_int_minus round_even_def Let_def)
  then show ?thesis by (simp add: power_int_minus)
qed

text \<open>For a double, the comparisons of the script with its two thresholds are the
  comparisons with 0.05 and 0.95.\<close>

lemma below_edgeMargin_iff:
  assumes "is_double m"
  shows "m < edgeMargin \<longleftrightarrow> m < 1 / 20"
proof
  assume "m < edgeMargin"
  show "m < 1 / 20"
  proof (rule ccontr)
    assume "\<not> m < 1 / 20"
    then have "round64 (1 / 20) \<le> m" using assms by (intro round64_le) simp_all
    then show False using \<open>m < edgeMargin\<close> by (simp add: edgeMargin_def lit_def)
  qed
next
  assume "m < 1 / 20"
  then show "m < edgeMargin" by (simp add: edgeMargin_value)
qed

lemma above_upper_threshold_iff:
  assumes "is_double m"
  shows "m > jsub 1 edgeMargin \<longleftrightarrow> m > 19 / 20"
proof
  assume a: "m > jsub 1 edgeMargin"
  show "m > 19 / 20"
  proof (rule ccontr)
    assume "\<not> m > 19 / 20"
    then have "m \<le> round64 (19 / 20)" using assms by (intro round64_ge) simp_all
    then show False using a by (simp only: upper_threshold_value round64_095)
  qed
next
  assume "m > 19 / 20"
  then show "m > jsub 1 edgeMargin" by (simp add: upper_threshold_value)
qed

text \<open>
  C2. With \<open>e\<close> the Euler angles of the camera after the original update, and \<open>mouseX\<close> a
  double: for \<open>mouseX\<close> in \<open>[0, 0.05)\<close> the new orientation is that of \<open>e\<close> with the yaw \<open>y\<close>
  increased by the pan speed 0.02, for \<open>mouseX\<close> in \<open>(0.95, 1]\<close> that of \<open>e\<close> with the yaw
  decreased by 0.02, and for \<open>mouseX\<close> in \<open>[0.05, 0.95]\<close> that of \<open>e\<close> itself. The sum and the
  difference are those of the script.
\<close>

theorem edge_pan:
  assumes "is_double mouseX"
  shows
  "(let e = setFromQuaternion (quaternion (originalUpdate delta cam));
        q = quaternion (controls_update originalUpdate setFromQuaternion setFromEuler mouseX delta cam)
    in (mouseX \<in> {0 ..< 0.05} \<longrightarrow> q = setFromEuler (e\<lparr>ey := jadd (ey e) (lit 0.02)\<rparr>)) \<and>
       (mouseX \<in> {0.95 <.. 1} \<longrightarrow> q = setFromEuler (e\<lparr>ey := jsub (ey e) (lit 0.02)\<rparr>)) \<and>
       (mouseX \<in> {0.05 .. 0.95} \<longrightarrow> q = setFromEuler e))"
proof -
  define e where "e = setFromQuaternion (quaternion (originalUpdate delta cam))"
  define q where
    "q = quaternion (controls_update originalUpdate setFromQuaternion setFromEuler mouseX delta cam)"
  have q: "q = setFromEuler
      (let e1 = (if mouseX < 1 / 20 then e\<lparr>ey := jadd (ey e) panSpeed\<rparr> else e)
       in if mouseX > 19 / 20 then e1\<lparr>ey := jsub (ey e1) panSpeed\<rparr> else e1)"
    by (simp add: q_def e_def controls_update_def Let_def
        below_edgeMargin_iff [OF assms] above_upper_threshold_iff [OF assms])
  have left: "q = setFromEuler (e\<lparr>ey := jadd (ey e) (lit 0.02)\<rparr>)" if "mouseX \<in> {0 ..< 0.05}"
  proof -
    from that have "mouseX < 1 / 20" and "\<not> mouseX > 19 / 20" by simp_all
    then show ?thesis by (simp add: q panSpeed_def)
  qed
  have right: "q = setFromEuler (e\<lparr>ey := jsub (ey e) (lit 0.02)\<rparr>)" if "mouseX \<in> {0.95 <.. 1}"
  proof -
    from that have "\<not> mouseX < 1 / 20" and "mouseX > 19 / 20" by simp_all
    then show ?thesis by (simp add: q panSpeed_def)
  qed
  have middle: "q = setFromEuler e" if "mouseX \<in> {0.05 .. 0.95}"
  proof -
    from that have "\<not> mouseX < 1 / 20" and "\<not> mouseX > 19 / 20" by simp_all
    then show ?thesis by (simp add: q)
  qed
  show ?thesis
    unfolding Let_def e_def [symmetric] q_def [symmetric]
    using left right middle by blast
qed

text \<open>A camera that looks straight ahead (Euler angles 0), where the conversions are known:
  the mouse near the left edge, near the right edge, and in the middle.\<close>

theorem edge_pan_witness:
  "is_double (1 / 64) \<and> is_double (63 / 64) \<and> is_double (1 / 2) \<and>
   (1 / 64 :: real) \<in> {0 ..< 0.05} \<and> (63 / 64 :: real) \<in> {0.95 <.. 1} \<and>
   (1 / 2 :: real) \<in> {0.05 .. 0.95} \<and>
   quaternion (controls_update (\<lambda>d c. c) (\<lambda>q. \<lparr>ex = 0, ey = 0, ez = 0\<rparr>)
      (\<lambda>e. \<lparr>qx = 0, qy = sin (ey e / 2), qz = 0, qw = cos (ey e / 2)\<rparr>) (1 / 64) (1 / 60) newObject3D)
     = \<lparr>qx = 0, qy = sin (jadd 0 (lit (1 / 50)) / 2), qz = 0, qw = cos (jadd 0 (lit (1 / 50)) / 2)\<rparr> \<and>
   quaternion (controls_update (\<lambda>d c. c) (\<lambda>q. \<lparr>ex = 0, ey = 0, ez = 0\<rparr>)
      (\<lambda>e. \<lparr>qx = 0, qy = sin (ey e / 2), qz = 0, qw = cos (ey e / 2)\<rparr>) (63 / 64) (1 / 60) newObject3D)
     = \<lparr>qx = 0, qy = sin (jsub 0 (lit (1 / 50)) / 2), qz = 0, qw = cos (jsub 0 (lit (1 / 50)) / 2)\<rparr> \<and>
   quaternion (controls_update (\<lambda>d c. c) (\<lambda>q. \<lparr>ex = 0, ey = 0, ez = 0\<rparr>)
      (\<lambda>e. \<lparr>qx = 0, qy = sin (ey e / 2), qz = 0, qw = cos (ey e / 2)\<rparr>) (1 / 2) (1 / 60) newObject3D)
     = \<lparr>qx = 0, qy = 0, qz = 0, qw = 1\<rparr>"
proof -
  have d: "is_double (1 / 64)" "is_double (63 / 64)" "is_double (1 / 2)"
    using is_double_multiple [of 1 "- 6"] is_double_multiple [of 63 "- 6"]
      is_double_multiple [of 1 "- 1"]
    by (simp_all add: power_int_minus)
  have m: "(1 / 64 :: real) \<in> {0 ..< 0.05}" "(63 / 64 :: real) \<in> {0.95 <.. 1}"
      "(1 / 2 :: real) \<in> {0.05 .. 0.95}"
    by simp_all
  show ?thesis
    using d m
      edge_pan [OF d(1), where originalUpdate = "\<lambda>d c. c"
        and setFromQuaternion = "\<lambda>q. \<lparr>ex = 0, ey = 0, ez = 0\<rparr>"
        and setFromEuler = "\<lambda>e. \<lparr>qx = 0, qy = sin (ey e / 2), qz = 0, qw = cos (ey e / 2)\<rparr>"
        and delta = "1 / 60" and cam = newObject3D]
      edge_pan [OF d(2), where originalUpdate = "\<lambda>d c. c"
        and setFromQuaternion = "\<lambda>q. \<lparr>ex = 0, ey = 0, ez = 0\<rparr>"
        and setFromEuler = "\<lambda>e. \<lparr>qx = 0, qy = sin (ey e / 2), qz = 0, qw = cos (ey e / 2)\<rparr>"
        and delta = "1 / 60" and cam = newObject3D]
      edge_pan [OF d(3), where originalUpdate = "\<lambda>d c. c"
        and setFromQuaternion = "\<lambda>q. \<lparr>ex = 0, ey = 0, ez = 0\<rparr>"
        and setFromEuler = "\<lambda>e. \<lparr>qx = 0, qy = sin (ey e / 2), qz = 0, qw = cos (ey e / 2)\<rparr>"
        and delta = "1 / 60" and cam = newObject3D]
    unfolding Let_def by simp
qed

section \<open>Audio fallback\<close>

lemma clicks_no_listeners:
  "clickListeners w = [] \<Longrightarrow> clicks n w = w"
  by (induction n arbitrary: w) (simp_all add: click_window_def)

text \<open>
  C8. When the first \<^verbatim>\<open>play()\<close> is rejected, the script registers one click listener with
  \<^verbatim>\<open>once\<close> set; when it is not rejected, the script registers none. On a window without
  other listeners: after the rejection \<^verbatim>\<open>play()\<close> has been called once, after one or more
  clicks it has been called twice and the listener is gone; when the first \<^verbatim>\<open>play()\<close> went
  through, no number of clicks calls it again.
\<close>

theorem audio_fallback:
  "clickListeners (startAudio False w) = clickListeners w @ [(PlayListener, True)] \<and>
   clickListeners (startAudio True w) = clickListeners w \<and>
   playCalls (startAudio False newWindow) = 1 \<and>
   playCalls (clicks (Suc n) (startAudio False newWindow)) = 2 \<and>
   clickListeners (clicks (Suc n) (startAudio False newWindow)) = [] \<and>
   playCalls (clicks n (startAudio True newWindow)) = 1"
proof -
  have a: "click_window (startAudio False newWindow) = \<lparr>clickListeners = [], playCalls = 2\<rparr>"
    by (simp add: click_window_def startAudio_def newWindow_def play_def)
  have b: "clicks n \<lparr>clickListeners = [], playCalls = 2\<rparr> = \<lparr>clickListeners = [], playCalls = 2\<rparr>"
    by (rule clicks_no_listeners) simp
  have c: "clicks n (startAudio True newWindow) = startAudio True newWindow"
    by (rule clicks_no_listeners) (simp add: startAudio_def newWindow_def play_def)
  show ?thesis
    by (simp add: a b c) (simp add: startAudio_def newWindow_def play_def)
qed

section \<open>Failing loads\<close>

text \<open>
  C3, at a loader that reports an error for every path. The rejection of
  \<^verbatim>\<open>loadInteractiveModel\<close> for the first model is taken by no handler: nothing is written to
  the console. The load of the warehouse writes its error to the console. Over all the
  loads of the script, one error is logged and five rejections are unhandled. The scene
  is as it was in each case.
\<close>

theorem interactive_load_failure_unhandled:
  "callLoadInteractiveModel (\<lambda>p. Inl (LoadError ''404'')) setRotationY pressure initialProgram =
     initialProgram\<lparr>unhandledRejections := [LoadError ''404'']\<rparr> \<and>
   loadWarehouse (\<lambda>p. Inl (LoadError ''404'')) setRotationY initialProgram =
     initialProgram\<lparr>console := [LoadError ''404'']\<rparr> \<and>
   loadModels (\<lambda>p. Inl (LoadError ''404'')) setRotationY initialProgram =
     initialProgram
       \<lparr>console := [LoadError ''404''],
        unhandledRejections := [LoadError ''404'', LoadError ''404'', LoadError ''404'',
                                LoadError ''404'', LoadError ''404'']\<rparr>"
  by (simp add: loadModels_def callLoadInteractiveModel_def loadInteractiveModel_def
      loadModelSafe_def loadWarehouse_def initialProgram_def Let_def)

end
